theory Spec2Isabelle
  imports Complex_Main "HOL-Library.Sublist"
begin

chapter \<open>The server of the ticket canvas\<close>

text \<open>
  A model of the Express server of the canvas application, the JavaScript that follows
  the package manifest in \<open>src/package.json\<close>; line numbers are those of that file.  The
  model covers the retrying HTTP client \<open>fetchWithRetry\<close>, the banner merge of the
  create-ticket route, the handler of \<open>POST /api/submit\<close> with its deadline timer and its
  background task, and the shared context read by \<open>GET /api/freshdesk/recent-tickets\<close>.
  The definitions come first, the proofs after them.
\<close>

section \<open>The retrying HTTP client: \<open>fetchWithRetry\<close>\<close>

text \<open>
  \<open>fetchWithRetry(url, options = {}, retries = 3, initialDelay = 500)\<close> of the server.
  One \<open>axios\<close> call either resolves with a response or rejects with an error (a
  transport failure, the 10 second timeout, or a status outside 2xx, which axios rejects
  by default).  The outcome of the call made while \<open>attempts = k\<close> is \<open>net k\<close>; the value
  of the \<open>Math.random()\<close> drawn after that call failed is \<open>rnd k\<close>.  Delays are
  milliseconds; the arithmetic is the one of the reals (the rounding of IEEE doubles is
  not modelled).
\<close>

datatype ('e, 'r) completion = Return 'r | Throw 'e | ReturnUndefined

record ('e, 'r) retry_run =
  result :: "('e, 'r) completion"
  slept :: "real list"
  calls :: nat

text \<open>\<open>currentDelay = Math.min(currentDelay * 2, 10000) * (0.8 + Math.random() * 0.4)\<close>\<close>

definition next_delay :: "real \<Rightarrow> real \<Rightarrow> real" where
  "next_delay currentDelay r = min (currentDelay * 2) 10000 * (0.8 + r * 0.4)"

text \<open>
  The \<open>while (attempts <= retries)\<close> loop.  A failed call increments \<open>attempts\<close>; when
  that exceeds \<open>retries\<close> the error of this very call is thrown, otherwise the loop
  sleeps \<open>currentDelay\<close>, computes the next delay and goes round again.  Leaving the loop
  through its head returns \<open>undefined\<close>.
\<close>

function retry_loop ::
  "(nat \<Rightarrow> 'e + 'r) \<Rightarrow> (nat \<Rightarrow> real) \<Rightarrow> nat \<Rightarrow> real \<Rightarrow> nat \<Rightarrow> ('e, 'r) retry_run" where
  "retry_loop net rnd retries currentDelay attempts =
     (if attempts \<le> retries then
        (case net attempts of
           Inr response \<Rightarrow> \<lparr>result = Return response, slept = [], calls = 1\<rparr>
         | Inl error \<Rightarrow>
             (if Suc attempts > retries
              then \<lparr>result = Throw error, slept = [], calls = 1\<rparr>
              else (let run = retry_loop net rnd retries
                                (next_delay currentDelay (rnd attempts)) (Suc attempts)
                    in run\<lparr>slept := currentDelay # slept run, calls := Suc (calls run)\<rparr>)))
      else \<lparr>result = ReturnUndefined, slept = [], calls = 0\<rparr>)"
  by pat_completeness auto
termination
  by (relation "measure (\<lambda>(net, rnd, retries, currentDelay, attempts). Suc retries - attempts)") auto

declare retry_loop.simps [simp del]

text \<open>The default parameters: an argument left out (\<open>None\<close>) takes its default.\<close>

definition fetchWithRetry ::
  "(nat \<Rightarrow> 'e + 'r) \<Rightarrow> (nat \<Rightarrow> real) \<Rightarrow> nat option \<Rightarrow> real option \<Rightarrow> ('e, 'r) retry_run" where
  "fetchWithRetry net rnd retries initialDelay =
     retry_loop net rnd (case retries of None \<Rightarrow> 3 | Some n \<Rightarrow> n)
       (case initialDelay of None \<Rightarrow> 500 | Some d \<Rightarrow> d) 0"

fun backoff_ok :: "real list \<Rightarrow> bool" where
  "backoff_ok (a # b # rest) =
     (min (a * 2) 10000 * 0.8 \<le> b \<and> b \<le> min (a * 2) 10000 * 1.2 \<and> backoff_ok (b # rest))"
| "backoff_ok [a] = True"
| "backoff_ok [] = True"

section \<open>The create-ticket route: merging the conversation banner\<close>

text \<open>
  Strings are lists of \<open>char\<close>: the code units below 256 of a JavaScript string.
  \<open>String.prototype.includes\<close> is \<open>sublist\<close>; \<open>String.prototype.replace\<close> with a string
  pattern replaces the first occurrence only, and expands the \<open>$\<close> patterns of the
  replacement string (\<open>$$\<close>, \<open>$&\<close>, \<open>$`\<close>, \<open>$'\<close>; with a string pattern there are no
  captures, so \<open>$1\<close> and \<open>$<name>\<close> stay as they are).
\<close>

definition js_includes :: "string \<Rightarrow> string \<Rightarrow> bool" where
  "js_includes s pat = sublist pat s"

text \<open>The text in front of the first occurrence of \<open>pat\<close> in the string, and the text behind it.\<close>

fun split_first :: "string \<Rightarrow> string \<Rightarrow> (string \<times> string) option" where
  "split_first pat [] = (if pat = [] then Some ([], []) else None)"
| "split_first pat (c # cs) =
     (if prefix pat (c # cs) then Some ([], drop (length pat) (c # cs))
      else (case split_first pat cs of
              None \<Rightarrow> None
            | Some (front, behind) \<Rightarrow> Some (c # front, behind)))"

fun get_substitution :: "string \<Rightarrow> string \<Rightarrow> string \<Rightarrow> string \<Rightarrow> string" where
  "get_substitution matched front behind [] = []"
| "get_substitution matched front behind [c] = [c]"
| "get_substitution matched front behind (c # c' # rest) =
     (if c = CHR ''$'' \<and> c' = CHR ''$'' then CHR ''$'' # get_substitution matched front behind rest
      else if c = CHR ''$'' \<and> c' = CHR ''&'' then matched @ get_substitution matched front behind rest
      else if c = CHR ''$'' \<and> c' = CHR 0x60 then front @ get_substitution matched front behind rest
      else if c = CHR ''$'' \<and> c' = CHR 0x27 then behind @ get_substitution matched front behind rest
      else c # get_substitution matched front behind (c' # rest))"

definition js_replace :: "string \<Rightarrow> string \<Rightarrow> string \<Rightarrow> string" where
  "js_replace s pat replacement =
     (case split_first pat s of
        None \<Rightarrow> s
      | Some (front, behind) \<Rightarrow> front @ get_substitution pat front behind replacement @ behind)"

text \<open>\<open>String.prototype.trim\<close>: white space and line terminators, among the code units below 256.\<close>

definition js_whitespace :: "char \<Rightarrow> bool" where
  "js_whitespace c =
     (c = CHR 0x09 \<or> c = CHR 0x0A \<or> c = CHR 0x0B \<or> c = CHR 0x0C \<or> c = CHR 0x0D \<or>
      c = CHR 0x20 \<or> c = CHR 0xA0)"

definition js_trim :: "string \<Rightarrow> string" where
  "js_trim s = rev (dropWhile js_whitespace (rev (dropWhile js_whitespace s)))"

definition anchor :: string where
  "anchor = ''Chat Transcript Added''"

text \<open>
  \<open>intercomUrl = `${process.env.INTERCOM_INBOX_URL}/conversation/${conversationId}`\<close> and
  \<open>urlSection = `Chat Transcript Added\n\nIntercom Conversation URL: ${intercomUrl}\n\n`\<close>.
\<close>

definition intercomUrl :: "string \<Rightarrow> string \<Rightarrow> string" where
  "intercomUrl inbox_url conversationId = inbox_url @ ''/conversation/'' @ conversationId"

definition url_line :: "string \<Rightarrow> string" where
  "url_line url = ''Intercom Conversation URL: '' @ url"

definition urlSection :: "string \<Rightarrow> string" where
  "urlSection url = anchor @ [CHR 0x0A, CHR 0x0A] @ url_line url @ [CHR 0x0A, CHR 0x0A]"

text \<open>
  Lines 620 to 624.  The description is a string; a description that is \<open>undefined\<close> or
  empty is falsy and is the empty string here, since both take the second branch and
  \<open>description || ''\<close> is the empty string for both.
\<close>

definition merge_banner :: "string \<Rightarrow> string \<Rightarrow> string" where
  "merge_banner url description =
     (if description \<noteq> [] \<and> js_includes description anchor
      then js_replace description anchor (js_trim (urlSection url))
      else urlSection url @ description)"

text \<open>The number of places of a string at which a pattern occurs.\<close>

fun count_occ :: "string \<Rightarrow> string \<Rightarrow> nat" where
  "count_occ pat [] = (if pat = [] then 1 else 0)"
| "count_occ pat (c # cs) = (if prefix pat (c # cs) then 1 else 0) + count_occ pat cs"

section \<open>The server: data\<close>

text \<open>
  Values of the request bodies are strings or absent (\<open>None\<close>); JSON values of other
  types are outside the model.  A value is truthy when it is present and not the empty
  string; \<open>a || b\<close> is \<open>js_or a b\<close>.
\<close>

definition truthy :: "string option \<Rightarrow> bool" where
  "truthy v = (case v of None \<Rightarrow> False | Some s \<Rightarrow> s \<noteq> [])"

definition js_or :: "string option \<Rightarrow> string option \<Rightarrow> string option" where
  "js_or a b = (if truthy a then a else b)"

text \<open>\<open>a || ''\<close>, for a value that is a string or absent.\<close>

definition or_empty :: "string option \<Rightarrow> string" where
  "or_empty a = (case a of None \<Rightarrow> [] | Some s \<Rightarrow> s)"

text \<open>\<open>Number.prototype.toString()\<close> of a natural number, and \<open>parseInt(s, 10)\<close>.\<close>

definition digit_char :: "nat \<Rightarrow> char" where
  "digit_char d = ''0123456789'' ! d"

function string_of_nat :: "nat \<Rightarrow> string" where
  "string_of_nat n =
     (if n < 10 then [digit_char n] else string_of_nat (n div 10) @ [digit_char (n mod 10)])"
  by pat_completeness auto
termination
  by (relation "measure (\<lambda>n. n)") auto

declare string_of_nat.simps [simp del]

datatype js_number = Num int | NaN

definition is_digit :: "char \<Rightarrow> bool" where
  "is_digit c = (c \<in> set ''0123456789'')"

definition digit_val :: "char \<Rightarrow> nat" where
  "digit_val c = of_char c - 48"

definition js_parseInt :: "string \<Rightarrow> js_number" where
  "js_parseInt str =
     (let s = dropWhile js_whitespace str;
          negative = (s \<noteq> [] \<and> hd s = CHR ''-'');
          s' = (if s \<noteq> [] \<and> (hd s = CHR ''-'' \<or> hd s = CHR ''+'') then tl s else s);
          ds = takeWhile is_digit s';
          n = foldl (\<lambda>a c. 10 * a + int (digit_val c)) 0 ds
      in if ds = [] then NaN else Num (if negative then - n else n))"

subsection \<open>The operation tracker and the shared context\<close>

text \<open>
  The values stored in \<open>ticketTracker\<close>: \<open>{inProgress: true, startedAt}\<close>,
  \<open>{inProgress: false, ticketId, createdAt}\<close> and \<open>{inProgress: false, error, createdAt}\<close>.
  Times are milliseconds since the request arrived.
\<close>

datatype tracker_entry =
    InProgress nat
  | Completed nat nat
  | Failed string nat

fun inProgress :: "tracker_entry \<Rightarrow> bool" where
  "inProgress (InProgress startedAt) = True"
| "inProgress (Completed ticketId createdAt) = False"
| "inProgress (Failed error createdAt) = False"

record intercom_context =
  customerEmail :: string
  defaultTitle :: string
  defaultDescription :: string

record server_state =
  ticketTracker :: "string \<rightharpoonup> tracker_entry"
  intercomContext :: "intercom_context option"

subsection \<open>Requests\<close>

record input_values =
  iv_email :: "string option"
  iv_subject :: "string option"
  iv_description :: "string option"
  iv_product_id :: "string option"
  iv_status :: "string option"
  iv_priority :: "string option"

text \<open>
  The body of \<open>POST /api/submit\<close>: \<open>component_id\<close>, \<open>contact?.email\<close>, \<open>customer?.email\<close>,
  \<open>contact?.name\<close>, \<open>customer?.name\<close>, \<open>conversation?.source?.body\<close>, \<open>conversation_id\<close>,
  \<open>conversation?.id\<close> and \<open>input_values || {}\<close>.
\<close>

record submit_body =
  component_id :: "string option"
  contact_email :: "string option"
  customer_email :: "string option"
  contact_name :: "string option"
  customer_name :: "string option"
  source_body :: "string option"
  conversation_id :: "string option"
  conversation_obj_id :: "string option"
  input_values :: input_values

text \<open>The body of \<open>POST /api/initialize\<close>, as far as the state depends on it.\<close>

record initialize_body =
  ib_customer_email :: "string option"
  ib_contact_email :: "string option"
  ib_conversation_contact_email :: "string option"
  ib_contact_name :: "string option"
  ib_customer_name :: "string option"
  ib_default_description :: "string option"
  ib_source_body :: "string option"

text \<open>The body of \<open>POST /api/freshdesk/create-ticket\<close>.\<close>

record create_ticket_body =
  ct_email :: "string option"
  ct_subject :: "string option"
  ct_description :: "string option"
  ct_status :: "string option"
  ct_priority :: "string option"
  ct_product_id :: "string option"
  ct_conversation_id :: "string option"
  ct_conversation_obj_id :: "string option"

subsection \<open>Data of the ticketing API\<close>

record mailbox =
  mb_id :: nat
  mb_name :: string
  mb_support_email :: string
  mb_product_id :: nat
  mb_active :: bool
  mb_default_reply_email :: bool

record ticket_field =
  tf_name :: string
  tf_id :: nat

record status_choice =
  sc_id :: nat
  sc_label :: string

record priority_choice =
  pc_label :: string
  pc_value :: nat

record ticket =
  tk_id :: nat
  tk_subject :: string
  tk_created_at :: string

text \<open>
  The ticket payload.  \<open>td_product_id\<close> is \<open>parseInt(product_id, 10)\<close>; status and priority
  are set only when the form gave them; \<open>_intercom_conversation_id\<close> is set by the
  create-ticket route only.
\<close>

record ticket_data =
  td_email :: string
  td_subject :: string
  td_description :: string
  td_source :: nat
  td_product_id :: js_number
  td_status :: "js_number option"
  td_priority :: "js_number option"
  td_intercom_conversation_id :: "string option"

text \<open>A rejected promise or a thrown error: \<open>error.message\<close> and \<open>error.response?.data?.message\<close>.\<close>

record js_error =
  message :: string
  response_message :: "string option"

subsection \<open>Views and responses\<close>

datatype option_item = OptionItem string string string

text \<open>
  The components of a canvas with the fields the server sets: a text (id, text, style), an
  input (id, label, value, error), a textarea (id, label, value), a dropdown (id, label,
  value, options), a button (id, label, style, action type), a divider and a spacer
  (size).  The placeholder and the validation rules of an input, which are constants, and
  the alignment, size and colour of a text are left out.
\<close>

datatype component =
    TextC "string option" string "string option"
  | InputC string string string "string option"
  | TextareaC string string string
  | DropdownC string string string "option_item list"
  | ButtonC string string string string
  | DividerC
  | SpacerC string

record canvas =
  components :: "component list"
  cv_values :: "(string \<times> string) list"
  validation_errors :: "(string \<times> string option) list"

datatype json_body =
    CanvasBody canvas
  | ErrorBody string
  | TicketsBody "ticket list"
  | TicketCreatedBody nat

text \<open>A call of \<open>res.json\<close> (after \<open>res.status\<close>, or with the status 200).\<close>

datatype response = Json nat json_body

subsection \<open>Effects and the environment\<close>

datatype outbound =
    FetchWithRetry string
  | AxiosGetRecentTickets string
  | FetchIntercomConversation string
  | AddConversationTranscriptToTicket ticket_data string
  | CreateFreshdeskTicket ticket_data
  | PostIntercomNote string string

text \<open>
  What a handler does, in the order in which it does it: calls of \<open>res.json\<close>, writes of
  the tracker and of \<open>app.locals.intercomContext\<close>, \<open>clearTimeout\<close>, outbound calls, and
  the \<open>console.error\<close> calls of the catch blocks.  Other logging is not modelled.
\<close>

datatype effect =
    ResJson response
  | TrackerSet string tracker_entry
  | TrackerDelete string
  | ContextSet intercom_context
  | ClearTimeout
  | Call outbound
  | ConsoleError string

text \<open>
  An awaited call answers after some milliseconds, with a value or with an error.  The
  environment fixes the answer of every call a handler can make.  The functions of
  \<open>conversation-helper.js\<close>, which is not among the sources, are parameters of the
  model: \<open>fetchIntercomConversation\<close>, \<open>formatConversationAsHtml\<close> (synchronous, may
  throw), \<open>addConversationTranscriptToTicket\<close> and \<open>createFreshdeskTicket\<close> (the id of the
  ticket it resolves with).  \<open>postIntercomNote\<close> catches every error and returns, so only
  its duration matters.  \<open>format_ist\<close> stands for the date formatting of
  \<open>toLocaleString('en-IN', ...)\<close>.
\<close>

type_synonym 'a reply = "nat \<times> (js_error + 'a)"

record 'c env =
  freshdesk_domain :: string
  format_ist :: "string \<Rightarrow> string"
  get_mailboxes :: "mailbox list reply"
  get_ticket_fields :: "ticket_field list reply"
  get_status_choices :: "nat \<Rightarrow> status_choice list reply"
  get_priority_choices :: "nat \<Rightarrow> priority_choice list reply"
  get_recent_tickets :: "string \<Rightarrow> ticket list reply"
  get_recent_tickets_on_timeout :: "string \<Rightarrow> ticket list reply"
  fetchIntercomConversation :: "string \<Rightarrow> 'c reply"
  formatConversationAsHtml :: "'c \<Rightarrow> js_error + string"
  addConversationTranscriptToTicket :: "ticket_data \<Rightarrow> string \<Rightarrow> ticket_data reply"
  createFreshdeskTicket :: "ticket_data \<Rightarrow> nat reply"
  postIntercomNote :: "string \<Rightarrow> string \<Rightarrow> nat"

fun apply_effect :: "server_state \<Rightarrow> effect \<Rightarrow> server_state" where
  "apply_effect st (TrackerSet key entry) = st\<lparr>ticketTracker := (ticketTracker st)(key \<mapsto> entry)\<rparr>"
| "apply_effect st (TrackerDelete key) = st\<lparr>ticketTracker := (ticketTracker st)(key := None)\<rparr>"
| "apply_effect st (ContextSet c) = st\<lparr>intercomContext := Some c\<rparr>"
| "apply_effect st (ResJson r) = st"
| "apply_effect st ClearTimeout = st"
| "apply_effect st (Call c) = st"
| "apply_effect st (ConsoleError s) = st"

definition final_state :: "server_state \<Rightarrow> (nat \<times> effect) list \<Rightarrow> server_state" where
  "final_state st trace = foldl apply_effect st (map snd trace)"

definition responses :: "(nat \<times> effect) list \<Rightarrow> response list" where
  "responses trace = concat (map (\<lambda>(t, e). case e of ResJson r \<Rightarrow> [r] | _ \<Rightarrow> []) trace)"

definition tracker_writes :: "(nat \<times> effect) list \<Rightarrow> (string \<times> tracker_entry) list" where
  "tracker_writes trace =
     concat (map (\<lambda>(t, e). case e of TrackerSet k v \<Rightarrow> [(k, v)] | _ \<Rightarrow> []) trace)"

definition outbound_calls :: "(nat \<times> effect) list \<Rightarrow> outbound list" where
  "outbound_calls trace = concat (map (\<lambda>(t, e). case e of Call c \<Rightarrow> [c] | _ \<Rightarrow> []) trace)"

text \<open>The ticket payloads passed to \<open>createFreshdeskTicket\<close>, and a trace without its logging.\<close>

definition created_tickets :: "(nat \<times> effect) list \<Rightarrow> ticket_data list" where
  "created_tickets trace =
     concat (map (\<lambda>c. case c of CreateFreshdeskTicket td \<Rightarrow> [td] | _ \<Rightarrow> []) (outbound_calls trace))"

fun is_log :: "effect \<Rightarrow> bool" where
  "is_log (ConsoleError s) = True"
| "is_log (ResJson r) = False"
| "is_log (TrackerSet k v) = False"
| "is_log (TrackerDelete k) = False"
| "is_log (ContextSet c) = False"
| "is_log ClearTimeout = False"
| "is_log (Call c) = False"

definition steps :: "(nat \<times> effect) list \<Rightarrow> effect list" where
  "steps trace = filter (\<lambda>e. \<not> is_log e) (map snd trace)"

section \<open>The server: views\<close>

definition js_lower_char :: "char \<Rightarrow> char" where
  "js_lower_char c =
     (if 65 \<le> (of_char c :: nat) \<and> (of_char c :: nat) \<le> 90 then char_of ((of_char c :: nat) + 32) else c)"

definition js_toLowerCase :: "string \<Rightarrow> string" where
  "js_toLowerCase s = map js_lower_char s"

definition display_subject :: "string \<Rightarrow> string" where
  "display_subject s = (if length s > 40 then take 40 s @ ''...'' else s)"

definition ticket_components :: "'c env \<Rightarrow> ticket \<Rightarrow> component list" where
  "ticket_components env tk =
     [TextC (Some (''ticket_'' @ string_of_nat (tk_id tk)))
        (''[#'' @ string_of_nat (tk_id tk) @ '' - '' @ display_subject (tk_subject tk) @ ''](''
           @ freshdesk_domain env @ ''/a/tickets/'' @ string_of_nat (tk_id tk) @ '')'')
        (Some ''muted''),
      TextC (Some (''ticket_date_'' @ string_of_nat (tk_id tk))) (format_ist env (tk_created_at tk))
        (Some ''muted''),
      SpacerC ''xs'']"

definition no_tickets :: component where
  "no_tickets = TextC (Some ''no_tickets'') ''No recent tickets'' (Some ''muted'')"

definition home_header :: "string \<Rightarrow> component list" where
  "home_header label =
     [ButtonC ''create_ticket'' label ''primary'' ''submit'',
      DividerC,
      TextC (Some ''recent_tickets_header'') ''Recent Tickets'' (Some ''header'')]"

definition plain_canvas :: "component list \<Rightarrow> canvas" where
  "plain_canvas cs = \<lparr>components = cs, cv_values = [], validation_errors = []\<rparr>"

text \<open>The homepage view with the recent tickets, or \<open>No recent tickets\<close> when there are none.\<close>

definition home_view :: "'c env \<Rightarrow> string \<Rightarrow> ticket list \<Rightarrow> canvas" where
  "home_view env label tickets =
     plain_canvas (home_header label @
       (if tickets \<noteq> [] then concat (map (ticket_components env) tickets) else [no_tickets]))"

definition form_buttons :: "component list" where
  "form_buttons =
     [ButtonC ''submit_ticket_button'' ''Create Ticket'' ''primary'' ''submit'',
      ButtonC ''cancel'' ''Cancel'' ''secondary'' ''submit'']"

definition mailbox_option :: "mailbox \<Rightarrow> option_item" where
  "mailbox_option m =
     OptionItem (''product_'' @ string_of_nat (mb_product_id m))
       (mb_name m @ '' ('' @ mb_support_email m @ '')'')
       (string_of_nat (mb_product_id m))"

definition status_option :: "status_choice \<Rightarrow> option_item" where
  "status_option s =
     OptionItem (''status_'' @ string_of_nat (sc_id s)) (sc_label s) (string_of_nat (sc_id s))"

definition priority_option :: "priority_choice \<Rightarrow> option_item" where
  "priority_option p =
     OptionItem (''priority_'' @ string_of_nat (pc_value p)) (pc_label p) (string_of_nat (pc_value p))"

definition default_status :: "status_choice list \<Rightarrow> string" where
  "default_status statusChoices =
     (case find (\<lambda>s. js_toLowerCase (sc_label s) = ''open'') statusChoices of
        Some s \<Rightarrow> ''status_'' @ string_of_nat (sc_id s)
      | None \<Rightarrow> (case statusChoices of
                   s # _ \<Rightarrow> ''status_'' @ string_of_nat (sc_id s)
                 | [] \<Rightarrow> []))"

definition default_priority :: "priority_choice list \<Rightarrow> string" where
  "default_priority priorityChoices =
     (case find (\<lambda>p. js_toLowerCase (pc_label p) = ''medium'') priorityChoices of
        Some p \<Rightarrow> ''priority_'' @ string_of_nat (pc_value p)
      | None \<Rightarrow> (case priorityChoices of
                   p # _ \<Rightarrow> ''priority_'' @ string_of_nat (pc_value p)
                 | [] \<Rightarrow> []))"

text \<open>The ticket form shown for \<open>create_ticket\<close> (lines 906 to 1052).\<close>

definition ticket_form ::
  "intercom_context \<Rightarrow> mailbox list \<Rightarrow> status_choice list \<Rightarrow> priority_choice list \<Rightarrow> canvas" where
  "ticket_form ctx mailboxes statusChoices priorityChoices =
     (let activeMailboxes = filter mb_active mailboxes in
      \<lparr>components =
         [TextC None ''Create a new Freshdesk ticket'' (Some ''header''),
          InputC ''email'' ''Email'' (customerEmail ctx) None,
          InputC ''subject'' ''Subject''
            (if defaultTitle ctx \<noteq> [] then defaultTitle ctx else ''New Ticket'') None,
          TextareaC ''description'' ''Description'' ''Chat Transcript Added'']
         @ (case activeMailboxes of
              [] \<Rightarrow> []
            | first # _ \<Rightarrow>
                [DropdownC ''product_id'' ''Configure Email''
                   (''product_'' @ string_of_nat (mb_product_id
                      (case find mb_default_reply_email activeMailboxes of
                         Some m \<Rightarrow> m | None \<Rightarrow> first)))
                   (map mailbox_option activeMailboxes)])
         @ (if statusChoices \<noteq> []
            then [DropdownC ''status'' ''Status'' (default_status statusChoices)
                    (map status_option statusChoices)]
            else [])
         @ (if priorityChoices \<noteq> []
            then [DropdownC ''priority'' ''Priority'' (default_priority priorityChoices)
                    (map priority_option priorityChoices)]
            else [])
         @ form_buttons,
       cv_values = [(''status'', default_status statusChoices),
                    (''priority'', default_priority priorityChoices)],
       validation_errors =
         [(''email'', Some (if customerEmail ctx \<noteq> [] then [] else ''Email is required''))]\<rparr>)"

text \<open>The view sent with status 500 when the data of the form cannot be fetched.\<close>

definition load_failed_view :: canvas where
  "load_failed_view =
     plain_canvas
       [TextC None ''Error'' (Some ''header''),
        TextC None ''Failed to load Freshdesk data. Please try again in a moment.'' (Some ''error''),
        ButtonC ''retry_button'' ''Retry'' ''primary'' ''submit'']"

text \<open>
  The form re-rendered after the check of the required fields failed (lines 1103 to
  1222).  An \<open>error\<close> or a validation error that is \<open>undefined\<close> is \<open>None\<close>.
\<close>

definition error_form ::
  "bool \<Rightarrow> bool \<Rightarrow> input_values \<Rightarrow> intercom_context \<Rightarrow>
   mailbox list \<Rightarrow> status_choice list \<Rightarrow> priority_choice list \<Rightarrow> canvas" where
  "error_form isEmailEmpty isSubjectEmpty iv ctx activeMailboxes statusChoices priorityChoices =
     \<lparr>components =
        [TextC None
           (if isEmailEmpty \<and> isSubjectEmpty then ''Email and Subject are required''
            else if isEmailEmpty then ''Email is required'' else ''Subject is required'')
           (Some ''error''),
         InputC ''email'' ''Email'' (if isEmailEmpty then [] else or_empty (iv_email iv))
           (if isEmailEmpty then Some ''Email is required'' else None),
         InputC ''subject'' ''Subject''
           (if isSubjectEmpty then []
            else if truthy (iv_subject iv) then or_empty (iv_subject iv)
            else if defaultTitle ctx \<noteq> [] then defaultTitle ctx else ''New Ticket'')
           (if isSubjectEmpty then Some ''Subject is required'' else None),
         TextareaC ''description'' ''Description''
           (if truthy (iv_description iv) then or_empty (iv_description iv)
            else ''Chat Transcript Added'')]
        @ (case activeMailboxes of
             [] \<Rightarrow> []
           | first # _ \<Rightarrow>
               [DropdownC ''product_id'' ''Configure Email''
                  (if truthy (iv_product_id iv) then or_empty (iv_product_id iv)
                   else ''product_'' @ string_of_nat (mb_product_id first))
                  (map mailbox_option activeMailboxes)])
        @ (if statusChoices \<noteq> []
           then [DropdownC ''status'' ''Status''
                   (if truthy (iv_status iv) then or_empty (iv_status iv) else ''status_2'')
                   (map status_option statusChoices)]
           else [])
        @ (if priorityChoices \<noteq> []
           then [DropdownC ''priority'' ''Priority''
                   (if truthy (iv_priority iv) then or_empty (iv_priority iv) else ''priority_2'')
                   (map priority_option priorityChoices)]
           else [])
        @ form_buttons,
      cv_values = [],
      validation_errors =
        [(''email'', if isEmailEmpty then Some ''Email is required'' else None),
         (''subject'', if isSubjectEmpty then Some ''Subject is required'' else None)]\<rparr>"

text \<open>The form of the second check, \<open>!email || !subject\<close> after trimming (lines 1267 to 1369).\<close>

definition second_check_form ::
  "string \<Rightarrow> string \<Rightarrow> input_values \<Rightarrow> intercom_context \<Rightarrow> canvas" where
  "second_check_form subject description iv ctx =
     \<lparr>components =
        [TextC None ''Create a new Freshdesk ticket'' (Some ''header''),
         InputC ''email'' ''Email'' [] (Some ''Email is required''),
         InputC ''subject'' ''Subject''
           (if subject \<noteq> [] then subject
            else if defaultTitle ctx \<noteq> [] then defaultTitle ctx else ''New Ticket'') None,
         TextareaC ''description'' ''Description''
           (if description \<noteq> [] then description else defaultDescription ctx)]
        @ (if truthy (iv_product_id iv)
           then [DropdownC ''product_id'' ''Configure Email'' (or_empty (iv_product_id iv)) []] else [])
        @ (if truthy (iv_status iv)
           then [DropdownC ''status'' ''Status'' (or_empty (iv_status iv)) []] else [])
        @ (if truthy (iv_priority iv)
           then [DropdownC ''priority'' ''Priority'' (or_empty (iv_priority iv)) []] else [])
        @ form_buttons,
      cv_values = [],
      validation_errors = [(''email'', Some ''Email is required'')]\<rparr>"

text \<open>The view of the third check, \<open>!subject || !description || !product_id\<close> (lines 1372 to 1397).\<close>

definition required_fields_view :: canvas where
  "required_fields_view =
     plain_canvas
       [TextC None ''Please fill in all required fields'' (Some ''error''),
        ButtonC ''try_again'' ''Try Again'' ''primary'' ''reload'']"

text \<open>The inputs of a view that carry an error, with the error.\<close>

definition flagged_fields :: "canvas \<Rightarrow> (string \<times> string) list" where
  "flagged_fields view =
     concat (map (\<lambda>c. case c of InputC field label v (Some err) \<Rightarrow> [(field, err)] | _ \<Rightarrow> [])
       (components view))"

section \<open>The server: handlers\<close>

subsection \<open>Fetching the data of the form\<close>

record form_data =
  fd_elapsed :: nat
  fd_error :: "js_error option"
  fd_mailboxes :: "mailbox list"
  fd_statusChoices :: "status_choice list"
  fd_priorityChoices :: "priority_choice list"
  fd_calls :: "(nat \<times> effect) list"

text \<open>
  The four \<open>fetchWithRetry\<close> calls of the \<open>try\<close> blocks at lines 843 and 1078, one after the
  other: the mailboxes, the ticket fields, and the choices of the status and of the
  priority field when the field exists.  The first call that fails ends the block; what
  was assigned before stays.
\<close>

definition fetch_form_data :: "'c env \<Rightarrow> form_data" where
  "fetch_form_data env =
     (let c1 = [(0, Call (FetchWithRetry (freshdesk_domain env @ ''/api/v2/email/mailboxes'')))];
          d1 = fst (get_mailboxes env)
      in case snd (get_mailboxes env) of
        Inl e \<Rightarrow> \<lparr>fd_elapsed = d1, fd_error = Some e, fd_mailboxes = [], fd_statusChoices = [],
                   fd_priorityChoices = [], fd_calls = c1\<rparr>
      | Inr mailboxes \<Rightarrow>
         (let c2 = c1 @ [(d1, Call (FetchWithRetry (freshdesk_domain env @ ''/api/v2/admin/ticket_fields'')))];
              d2 = d1 + fst (get_ticket_fields env)
          in case snd (get_ticket_fields env) of
            Inl e \<Rightarrow> \<lparr>fd_elapsed = d2, fd_error = Some e, fd_mailboxes = mailboxes,
                       fd_statusChoices = [], fd_priorityChoices = [], fd_calls = c2\<rparr>
          | Inr ticketFields \<Rightarrow>
             (let statusField = find (\<lambda>f. tf_name f = ''status'') ticketFields;
                  c3 = c2 @ (case statusField of None \<Rightarrow> []
                     | Some f \<Rightarrow> [(d2, Call (FetchWithRetry (freshdesk_domain env
                           @ ''/api/v2/admin/ticket_fields/'' @ string_of_nat (tf_id f))))]);
                  d3 = d2 + (case statusField of None \<Rightarrow> 0
                     | Some f \<Rightarrow> fst (get_status_choices env (tf_id f)))
              in case (case statusField of None \<Rightarrow> Inr []
                       | Some f \<Rightarrow> snd (get_status_choices env (tf_id f))) of
                Inl e \<Rightarrow> \<lparr>fd_elapsed = d3, fd_error = Some e, fd_mailboxes = mailboxes,
                           fd_statusChoices = [], fd_priorityChoices = [], fd_calls = c3\<rparr>
              | Inr statusChoices \<Rightarrow>
                 (let priorityField = find (\<lambda>f. tf_name f = ''priority'') ticketFields;
                      c4 = c3 @ (case priorityField of None \<Rightarrow> []
                         | Some f \<Rightarrow> [(d3, Call (FetchWithRetry (freshdesk_domain env
                               @ ''/api/v2/admin/ticket_fields/'' @ string_of_nat (tf_id f))))]);
                      d4 = d3 + (case priorityField of None \<Rightarrow> 0
                         | Some f \<Rightarrow> fst (get_priority_choices env (tf_id f)))
                  in case (case priorityField of None \<Rightarrow> Inr []
                           | Some f \<Rightarrow> snd (get_priority_choices env (tf_id f))) of
                    Inl e \<Rightarrow> \<lparr>fd_elapsed = d4, fd_error = Some e, fd_mailboxes = mailboxes,
                               fd_statusChoices = statusChoices, fd_priorityChoices = [],
                               fd_calls = c4\<rparr>
                  | Inr priorityChoices \<Rightarrow>
                      \<lparr>fd_elapsed = d4, fd_error = None, fd_mailboxes = mailboxes,
                       fd_statusChoices = statusChoices, fd_priorityChoices = priorityChoices,
                       fd_calls = c4\<rparr>))))"

subsection \<open>The background task of a submission\<close>

text \<open>\<open>error.response?.data?.message || error.message\<close>\<close>

definition error_text :: "js_error \<Rightarrow> string" where
  "error_text e = (if truthy (response_message e) then or_empty (response_message e) else message e)"

definition ticket_url :: "'c env \<Rightarrow> nat \<Rightarrow> string" where
  "ticket_url env ticketId = freshdesk_domain env @ ''/a/tickets/'' @ string_of_nat ticketId"

definition success_note :: "'c env \<Rightarrow> nat \<Rightarrow> string" where
  "success_note env ticketId =
     ''Freshdesk Ticket creation successful.'' @ [CHR 0x0A] @ ''Ticket URL: '' @ ticket_url env ticketId"

definition failure_note :: "js_error \<Rightarrow> string" where
  "failure_note e =
     ''Freshdesk Ticket creation failed. Contact Admin.'' @ [CHR 0x0A] @ ''Error: '' @ error_text e"

record bg_args =
  bg_email :: string
  bg_subject :: string
  bg_description :: string
  bg_product_id :: string
  bg_status :: string
  bg_priority :: string
  bg_conversationId :: "string option"

text \<open>The catch block of the task (lines 1601 to 1619), entered at time \<open>t\<close> with the error \<open>e\<close>.\<close>

definition bg_failure :: "'c env \<Rightarrow> bg_args \<Rightarrow> nat \<Rightarrow> js_error \<Rightarrow> (nat \<times> effect) list" where
  "bg_failure env a t e =
     (t, ConsoleError ''Background processing: Error creating ticket:'') #
     (let note = (if truthy (bg_conversationId a)
                  then [(t, Call (PostIntercomNote (or_empty (bg_conversationId a)) (failure_note e)))]
                  else []);
          t' = (if truthy (bg_conversationId a)
                then t + postIntercomNote env (or_empty (bg_conversationId a)) (failure_note e)
                else t)
      in note @ (if bg_email a \<noteq> [] then [(t', TrackerSet (bg_email a) (Failed (error_text e) t'))] else []))"

text \<open>
  The first step (lines 1536 to 1556): with a conversation identifier the conversation is
  fetched and formatted, and a transcript that is not empty is appended to the
  description; an error of either call is caught and logged.  The result is the time,
  the description and the effects of the step.
\<close>

definition bg_transcript ::
  "'c env \<Rightarrow> bg_args \<Rightarrow> nat \<Rightarrow> nat \<times> string \<times> (nat \<times> effect) list" where
  "bg_transcript env a t0 =
     (if truthy (bg_conversationId a) then
        (let cid = or_empty (bg_conversationId a);
             t1 = t0 + fst (fetchIntercomConversation env cid);
             call = (t0, Call (FetchIntercomConversation cid));
             caught = (t1, ConsoleError ''Error fetching or formatting conversation:'')
         in case snd (fetchIntercomConversation env cid) of
              Inl e \<Rightarrow> (t1, bg_description a, [call, caught])
            | Inr conversation \<Rightarrow>
               (case formatConversationAsHtml env conversation of
                  Inl e \<Rightarrow> (t1, bg_description a, [call, caught])
                | Inr transcriptHtml \<Rightarrow>
                    (t1, if transcriptHtml \<noteq> []
                         then bg_description a @ [CHR 0x0A, CHR 0x0A] @ transcriptHtml
                         else bg_description a, [call])))
      else (t0, bg_description a, []))"

definition build_ticket_data :: "bg_args \<Rightarrow> string \<Rightarrow> ticket_data" where
  "build_ticket_data a description =
     \<lparr>td_email = bg_email a, td_subject = bg_subject a, td_description = description,
      td_source = 2, td_product_id = js_parseInt (bg_product_id a),
      td_status = (if bg_status a \<noteq> [] then Some (js_parseInt (bg_status a)) else None),
      td_priority = (if bg_priority a \<noteq> [] then Some (js_parseInt (bg_priority a)) else None),
      td_intercom_conversation_id = None\<rparr>"

text \<open>
  The rest of the \<open>try\<close> block (lines 1558 to 1600), from time \<open>t1\<close> with the description
  of the first step: the payload, \<open>addConversationTranscriptToTicket\<close> when there is a
  conversation identifier, \<open>createFreshdeskTicket\<close>, the note, the tracker.  An error of
  \<open>addConversationTranscriptToTicket\<close> or of \<open>createFreshdeskTicket\<close> enters the catch
  block.
\<close>

definition bg_create :: "'c env \<Rightarrow> bg_args \<Rightarrow> nat \<Rightarrow> string \<Rightarrow> (nat \<times> effect) list" where
  "bg_create env a t1 description =
     (let ticketData = build_ticket_data a description;
          cid = or_empty (bg_conversationId a);
          has_conversation = truthy (bg_conversationId a);
          add_call = (if has_conversation
                      then [(t1, Call (AddConversationTranscriptToTicket ticketData cid))] else []);
          t2 = (if has_conversation
                then t1 + fst (addConversationTranscriptToTicket env ticketData cid) else t1)
      in case (if has_conversation then snd (addConversationTranscriptToTicket env ticketData cid)
               else Inr ticketData) of
           Inl e \<Rightarrow> add_call @ bg_failure env a t2 e
         | Inr ticketDataWithTranscript \<Rightarrow>
            (let create_call = [(t2, Call (CreateFreshdeskTicket ticketDataWithTranscript))];
                 t3 = t2 + fst (createFreshdeskTicket env ticketDataWithTranscript)
             in case snd (createFreshdeskTicket env ticketDataWithTranscript) of
                  Inl e \<Rightarrow> add_call @ create_call @ bg_failure env a t3 e
                | Inr ticketId \<Rightarrow>
                   (let note = (if has_conversation
                                then [(t3, Call (PostIntercomNote cid (success_note env ticketId)))]
                                else []);
                        t4 = (if has_conversation
                              then t3 + postIntercomNote env cid (success_note env ticketId) else t3)
                    in add_call @ create_call @ note @
                       (if bg_email a \<noteq> []
                        then [(t4, TrackerSet (bg_email a) (Completed ticketId t4))] else []))))"

definition bg_task :: "'c env \<Rightarrow> bg_args \<Rightarrow> nat \<Rightarrow> (nat \<times> effect) list" where
  "bg_task env a t0 =
     (case bg_transcript env a t0 of
        (t1, description, effects) \<Rightarrow> effects @ bg_create env a t1 description)"

subsection \<open>\<open>POST /api/submit\<close>\<close>

text \<open>
  The main path of the handler is a list of timed actions: an effect, or a call of the
  helper \<open>sendResponse\<close>, which tests and sets the flag \<open>responseSent\<close> of the request.
  \<open>res.json\<close> called directly is the effect \<open>ResJson\<close>.
\<close>

datatype action = Eff effect | SendResponse response

definition effs :: "(nat \<times> effect) list \<Rightarrow> (nat \<times> action) list" where
  "effs es = map (\<lambda>(t, e). (t, Eff e)) es"

text \<open>
  \<open>sendResponse\<close> (lines 799 to 805): \<open>if (!responseSent) { responseSent = true;
  clearTimeout(timeoutId); res.json(responseData); }\<close>.  The result is the flag after the
  actions, and their effects.
\<close>

fun interp :: "bool \<Rightarrow> (nat \<times> action) list \<Rightarrow> bool \<times> (nat \<times> effect) list" where
  "interp responseSent [] = (responseSent, [])"
| "interp responseSent ((t, Eff e) # rest) =
     (case interp responseSent rest of (sent, es) \<Rightarrow> (sent, (t, e) # es))"
| "interp responseSent ((t, SendResponse r) # rest) =
     (if \<not> responseSent
      then (case interp True rest of (sent, es) \<Rightarrow> (sent, (t, ClearTimeout) # (t, ResJson r) # es))
      else interp responseSent rest)"

definition submit_context :: "submit_body \<Rightarrow> intercom_context" where
  "submit_context b =
     \<lparr>customerEmail = or_empty (js_or (contact_email b) (customer_email b)),
      defaultTitle = ''Conversation from '' @
        or_empty (js_or (contact_name b) (js_or (customer_name b) (Some ''Contact''))),
      defaultDescription = or_empty (source_body b)\<rparr>"

text \<open>\<open>!v || v.trim() === ''\<close>\<close>

definition is_blank :: "string option \<Rightarrow> bool" where
  "is_blank v = (\<not> truthy v \<or> js_trim (or_empty v) = [])"

text \<open>\<open>v ? v.replace(prefix, '') : ''\<close>, the extraction of the number of a dropdown value.\<close>

definition strip_prefix :: "string \<Rightarrow> string option \<Rightarrow> string" where
  "strip_prefix pre v = (if truthy v then js_replace (or_empty v) pre [] else [])"

text \<open>
  The values extracted from a form that passed the first check (lines 1227 to 1255, and
  line 1400): email and subject trimmed, \<open>inputValues.description || defaultDescription ||
  ''\<close>, the numbers of the dropdown values, and \<open>conversation_id || conversation?.id\<close>.
\<close>

definition submitted_description :: "input_values \<Rightarrow> intercom_context \<Rightarrow> string" where
  "submitted_description iv ctx =
     (if truthy (iv_description iv) then or_empty (iv_description iv) else defaultDescription ctx)"

definition submitted :: "submit_body \<Rightarrow> intercom_context \<Rightarrow> bg_args" where
  "submitted b ctx =
     \<lparr>bg_email = js_trim (or_empty (iv_email (input_values b))),
      bg_subject = js_trim (or_empty (iv_subject (input_values b))),
      bg_description = submitted_description (input_values b) ctx,
      bg_product_id = strip_prefix ''product_'' (iv_product_id (input_values b)),
      bg_status = strip_prefix ''status_'' (iv_status (input_values b)),
      bg_priority = strip_prefix ''priority_'' (iv_priority (input_values b)),
      bg_conversationId = js_or (conversation_id b) (conversation_obj_id b)\<rparr>"

text \<open>
  The branch of \<open>submit_ticket_button\<close> (lines 1054 to 1623).  The background task is
  started by \<open>setTimeout(..., 0)\<close> once the handler has returned; its effects follow the
  response of the main path.
\<close>

definition submit_ticket_actions ::
  "'c env \<Rightarrow> submit_body \<Rightarrow> intercom_context \<Rightarrow> (nat \<times> action) list" where
  "submit_ticket_actions env b ctx =
     (let iv = input_values b;
          isEmailEmpty = is_blank (iv_email iv);
          isSubjectEmpty = is_blank (iv_subject iv)
      in if isEmailEmpty \<or> isSubjectEmpty then
           (let fd = fetch_form_data env
            in effs (fd_calls fd) @
               [(fd_elapsed fd, SendResponse (Json 200 (CanvasBody
                   (error_form isEmailEmpty isSubjectEmpty iv ctx
                      (filter mb_active (fd_mailboxes fd)) (fd_statusChoices fd)
                      (fd_priorityChoices fd)))))])
         else
           (let args = submitted b ctx;
                email = bg_email args;
                subject = bg_subject args;
                description = bg_description args;
                product_id = bg_product_id args
            in if email = [] \<or> subject = [] then
                 [(0, SendResponse (Json 200 (CanvasBody (second_check_form subject description iv ctx))))]
               else if subject = [] \<or> description = [] \<or> product_id = [] then
                 [(0, SendResponse (Json 200 (CanvasBody required_fields_view)))]
               else
                 (let t = fst (get_recent_tickets env email);
                      recentTickets = (case snd (get_recent_tickets env email) of
                                         Inl e \<Rightarrow> [] | Inr tickets \<Rightarrow> tickets)
                  in [(0, Eff (Call (AxiosGetRecentTickets email)))] @
                     (if email \<noteq> [] then [(t, Eff (TrackerSet email (InProgress t)))] else []) @
                     [(t, SendResponse (Json 200 (CanvasBody
                         (home_view env ''Create a Freshdesk Ticket'' recentTickets))))] @
                     effs (bg_task env args t))))"

text \<open>The branch of \<open>create_ticket\<close> (lines 832 to 1053); its 500 response does not use \<open>sendResponse\<close>.\<close>

definition create_ticket_actions :: "'c env \<Rightarrow> intercom_context \<Rightarrow> (nat \<times> action) list" where
  "create_ticket_actions env ctx =
     (let fd = fetch_form_data env
      in effs (fd_calls fd) @
         (case fd_error fd of
            Some e \<Rightarrow> [(fd_elapsed fd, Eff (ResJson (Json 500 (CanvasBody load_failed_view))))]
          | None \<Rightarrow> [(fd_elapsed fd, SendResponse (Json 200 (CanvasBody
                       (ticket_form ctx (fd_mailboxes fd) (fd_statusChoices fd)
                          (fd_priorityChoices fd)))))]))"

text \<open>
  \<open>contact?.email || customer?.email || app.locals.intercomContext?.customerEmail\<close>, read
  after the handler has stored its own context; no other request is taken to write
  \<open>app.locals\<close> in between.
\<close>

definition fallback_email :: "submit_body \<Rightarrow> intercom_context \<Rightarrow> string option" where
  "fallback_email b ctx =
     js_or (contact_email b) (js_or (customer_email b) (Some (customerEmail ctx)))"

text \<open>The branch of \<open>cancel\<close> (lines 1624 to 1793).\<close>

definition cancel_actions ::
  "'c env \<Rightarrow> submit_body \<Rightarrow> intercom_context \<Rightarrow> (nat \<times> action) list" where
  "cancel_actions env b ctx =
     (let customerEmail = fallback_email b ctx
      in if truthy customerEmail then
           [(0, Eff (Call (FetchWithRetry (freshdesk_domain env @ ''/api/v2/tickets?email=''
                  @ or_empty customerEmail)))),
            (fst (get_recent_tickets env (or_empty customerEmail)),
             SendResponse (Json 200 (CanvasBody (home_view env ''Create a Ticket''
               (case snd (get_recent_tickets env (or_empty customerEmail)) of
                  Inl e \<Rightarrow> [] | Inr tickets \<Rightarrow> tickets)))))]
         else [(0, SendResponse (Json 200 (CanvasBody (home_view env ''Create a Ticket'' []))))])"

text \<open>
  The chain of branches on \<open>component_id\<close>.  The branch of \<open>refresh_status\<close> and
  \<open>retry_button\<close> and the final \<open>else\<close> call \<open>res.json\<close> directly.
\<close>

definition submit_actions ::
  "'c env \<Rightarrow> submit_body \<Rightarrow> intercom_context \<Rightarrow> (nat \<times> action) list" where
  "submit_actions env b ctx =
     (if component_id b = Some ''create_ticket'' then create_ticket_actions env ctx
      else if component_id b = Some ''submit_ticket_button'' then submit_ticket_actions env b ctx
      else if component_id b = Some ''cancel'' then cancel_actions env b ctx
      else if component_id b = Some ''refresh_status'' \<or> component_id b = Some ''retry_button''
      then [(0, Eff (ResJson (Json 200 (CanvasBody (home_view env ''Create a Freshdesk Ticket'' [])))))]
      else [(0, Eff (ResJson (Json 200 (CanvasBody (home_view env ''Create a Freshdesk Ticket'' [])))))])"

definition deadline :: nat where
  "deadline = 9000"

text \<open>
  The callback of the timer (lines 656 to 795), run at the deadline when
  \<open>responseSent\<close> is still false: it sets the flag, tracks the ticket as in progress
  under the email of the contact when the action is \<open>submit_ticket_button\<close>, fetches the
  recent tickets and calls \<open>res.json\<close> with the homepage.
\<close>

definition timer_effects :: "'c env \<Rightarrow> submit_body \<Rightarrow> intercom_context \<Rightarrow> (nat \<times> effect) list" where
  "timer_effects env b ctx =
     (let email = fallback_email b ctx
      in (if truthy email \<and> component_id b = Some ''submit_ticket_button''
          then [(deadline, TrackerSet (or_empty email) (InProgress deadline))] else []) @
         (if truthy email
          then [(deadline, Call (AxiosGetRecentTickets (or_empty email))),
                (deadline + fst (get_recent_tickets_on_timeout env (or_empty email)),
                 ResJson (Json 200 (CanvasBody (home_view env ''Create a Freshdesk Ticket''
                   (case snd (get_recent_tickets_on_timeout env (or_empty email)) of
                      Inl e \<Rightarrow> [] | Inr tickets \<Rightarrow> tickets)))))]
          else [(deadline, ResJson (Json 200 (CanvasBody
                  (home_view env ''Create a Freshdesk Ticket'' []))))]))"

text \<open>Two lists of timed effects in one, by time; at equal times the first list goes first.\<close>

fun merge_timed :: "(nat \<times> 'a) list \<Rightarrow> (nat \<times> 'a) list \<Rightarrow> (nat \<times> 'a) list" where
  "merge_timed [] ys = ys"
| "merge_timed (x # xs) [] = x # xs"
| "merge_timed (x # xs) (y # ys) =
     (if fst x \<le> fst y then x # merge_timed xs (y # ys) else y # merge_timed (x # xs) ys)"

text \<open>
  The race of the main path with the timer.  The main path runs up to the deadline of
  9000 ms.  The timer fires then unless \<open>clearTimeout\<close> was called; its callback does
  something only when \<open>responseSent\<close> is false, and then sets it.  What the main path
  and the background task do from the deadline on (an action at 9000 ms comes after the
  callback has started) follows with the flag as the callback left it, next to the
  effects of the callback.
\<close>

definition race :: "(nat \<times> effect) list \<Rightarrow> (nat \<times> action) list \<Rightarrow> (nat \<times> effect) list" where
  "race timer acts =
     (let early = takeWhile (\<lambda>(t, a). t < deadline) acts;
          late = dropWhile (\<lambda>(t, a). t < deadline) acts;
          sent1 = fst (interp False early);
          eff1 = snd (interp False early);
          fires = (ClearTimeout \<notin> set (map snd eff1));
          takes = (fires \<and> \<not> sent1);
          eff2 = snd (interp (sent1 \<or> takes) late)
      in eff1 @ merge_timed (if takes then timer else []) eff2)"

text \<open>
  One request to \<open>POST /api/submit\<close>: the handler stores its context in
  \<open>app.locals.intercomContext\<close> and runs the branch of the \<open>component_id\<close>, with the timer
  set.
\<close>

definition submit_trace :: "'c env \<Rightarrow> submit_body \<Rightarrow> (nat \<times> effect) list" where
  "submit_trace env b =
     (0, ContextSet (submit_context b)) #
     race (timer_effects env b (submit_context b)) (submit_actions env b (submit_context b))"

subsection \<open>\<open>POST /api/initialize\<close>, \<open>GET /api/freshdesk/recent-tickets\<close>, \<open>POST /api/freshdesk/create-ticket\<close>\<close>

text \<open>
  What \<open>/api/initialize\<close> does to the state (lines 141 to 179): it deletes the entry of the
  customer from the tracker when that entry is in progress, and stores the context.
\<close>

definition initialize_context :: "initialize_body \<Rightarrow> intercom_context" where
  "initialize_context b =
     \<lparr>customerEmail = or_empty (js_or (ib_customer_email b)
        (js_or (ib_contact_email b) (ib_conversation_contact_email b))),
      defaultTitle =
        (if truthy (js_or (ib_contact_name b) (ib_customer_name b))
         then ''Conversation from '' @ or_empty (js_or (ib_contact_name b) (ib_customer_name b))
         else ''New Conversation''),
      defaultDescription = or_empty (js_or (ib_default_description b) (ib_source_body b))\<rparr>"

definition initialize_effects :: "server_state \<Rightarrow> initialize_body \<Rightarrow> (nat \<times> effect) list" where
  "initialize_effects st b =
     (let ctx = initialize_context b
      in (case ticketTracker st (customerEmail ctx) of
            Some ticketInfo \<Rightarrow>
              (if customerEmail ctx \<noteq> [] \<and> inProgress ticketInfo
               then [(0, TrackerDelete (customerEmail ctx))] else [])
          | None \<Rightarrow> []) @
         [(0, ContextSet ctx)])"

text \<open>
  \<open>GET /api/freshdesk/recent-tickets\<close> (lines 469 to 504): the email is
  \<open>req.query.email || app.locals.intercomContext?.customerEmail\<close>; without one the answer
  is 400, otherwise the tickets of that email are fetched with \<open>fetchWithRetry\<close>, whose
  answer is \<open>get_recent_tickets\<close>.
\<close>

definition recent_tickets_email :: "server_state \<Rightarrow> string option \<Rightarrow> string option" where
  "recent_tickets_email st query_email =
     js_or query_email (case intercomContext st of None \<Rightarrow> None | Some c \<Rightarrow> Some (customerEmail c))"

definition recent_tickets_route :: "'c env \<Rightarrow> server_state \<Rightarrow> string option \<Rightarrow> response" where
  "recent_tickets_route env st query_email =
     (let customerEmail = recent_tickets_email st query_email
      in if \<not> truthy customerEmail then Json 400 (ErrorBody ''Customer email is required'')
         else (case snd (get_recent_tickets env (or_empty customerEmail)) of
                 Inr tickets \<Rightarrow> Json 200 (TicketsBody tickets)
               | Inl e \<Rightarrow> Json 500 (ErrorBody ''Failed to fetch recent tickets from Freshdesk'')))"

text \<open>
  \<open>POST /api/freshdesk/create-ticket\<close> (lines 572 to 646); \<open>inbox_url\<close> is
  \<open>process.env.INTERCOM_INBOX_URL\<close>.
\<close>

definition create_ticket_route :: "'c env \<Rightarrow> string \<Rightarrow> create_ticket_body \<Rightarrow> effect list" where
  "create_ticket_route env inbox_url b =
     (let conversationId = js_or (ct_conversation_id b) (ct_conversation_obj_id b)
      in if \<not> truthy (ct_email b) \<or> \<not> truthy (ct_subject b) \<or> \<not> truthy (ct_description b)
            \<or> \<not> truthy (ct_product_id b)
         then [ResJson (Json 400 (ErrorBody ''Missing required fields''))]
         else
           (let base = \<lparr>td_email = or_empty (ct_email b), td_subject = or_empty (ct_subject b),
                        td_description = or_empty (ct_description b), td_source = 2,
                        td_product_id = js_parseInt (or_empty (ct_product_id b)),
                        td_status = (if truthy (ct_status b)
                                     then Some (js_parseInt (or_empty (ct_status b))) else None),
                        td_priority = (if truthy (ct_priority b)
                                       then Some (js_parseInt (or_empty (ct_priority b))) else None),
                        td_intercom_conversation_id = None\<rparr>;
                cid = or_empty conversationId;
                tagged = base\<lparr>td_intercom_conversation_id := Some cid\<rparr>;
                transcript = (if truthy conversationId
                   then (case snd (addConversationTranscriptToTicket env tagged cid) of
                           Inr withTranscript \<Rightarrow>
                             ([Call (AddConversationTranscriptToTicket tagged cid)], withTranscript)
                         | Inl transcriptError \<Rightarrow>
                             ([Call (AddConversationTranscriptToTicket tagged cid),
                               ConsoleError ''Error adding conversation transcript:''], tagged))
                   else ([], base));
                ticketData = (if truthy conversationId
                   then (snd transcript)\<lparr>td_description :=
                          merge_banner (intercomUrl inbox_url cid) (td_description (snd transcript))\<rparr>
                   else base)
            in fst transcript @ [Call (CreateFreshdeskTicket ticketData)] @
               (case snd (createFreshdeskTicket env ticketData) of
                  Inr ticketId \<Rightarrow> [ResJson (Json 200 (TicketCreatedBody ticketId))]
                | Inl e \<Rightarrow> [ConsoleError ''Error creating ticket:'',
                            ResJson (Json 500 (ErrorBody ''Failed to create ticket''))])))"

subsection \<open>An environment and requests for the examples\<close>

text \<open>
  An environment in which every call answers after 5 ms: no mailboxes, fields or recent
  tickets, a conversation whose transcript is \<open><p>Hi</p>\<close>, a payload returned as it is
  by \<open>addConversationTranscriptToTicket\<close>, and the ticket 42.
\<close>

definition quiet_env :: "unit env" where
  "quiet_env =
     \<lparr>freshdesk_domain = ''https://fd.example'',
      format_ist = (\<lambda>s. s),
      get_mailboxes = (5, Inr []),
      get_ticket_fields = (5, Inr []),
      get_status_choices = (\<lambda>i. (5, Inr [])),
      get_priority_choices = (\<lambda>i. (5, Inr [])),
      get_recent_tickets = (\<lambda>email. (5, Inr [])),
      get_recent_tickets_on_timeout = (\<lambda>email. (5, Inr [])),
      fetchIntercomConversation = (\<lambda>cid. (5, Inr ())),
      formatConversationAsHtml = (\<lambda>c. Inr ''<p>Hi</p>''),
      addConversationTranscriptToTicket = (\<lambda>td cid. (5, Inr td)),
      createFreshdeskTicket = (\<lambda>td. (5, Inr 42)),
      postIntercomNote = (\<lambda>cid body. 5)\<rparr>"

definition network_error :: js_error where
  "network_error = \<lparr>message = ''Network Error'', response_message = None\<rparr>"

text \<open>A request body with nothing but the \<open>component_id\<close>, and the values of a form.\<close>

definition bare_body :: "string \<Rightarrow> submit_body" where
  "bare_body cid =
     \<lparr>component_id = Some cid, contact_email = None, customer_email = None,
      contact_name = None, customer_name = None, source_body = None,
      conversation_id = None, conversation_obj_id = None,
      input_values = \<lparr>iv_email = None, iv_subject = None, iv_description = None,
                        iv_product_id = None, iv_status = None, iv_priority = None\<rparr>\<rparr>"

definition form_values :: "string \<Rightarrow> string \<Rightarrow> string option \<Rightarrow> string option \<Rightarrow> input_values" where
  "form_values email subject description product_id =
     \<lparr>iv_email = Some email, iv_subject = Some subject, iv_description = description,
      iv_product_id = product_id, iv_status = None, iv_priority = None\<rparr>"

definition empty_state :: server_state where
  "empty_state = \<lparr>ticketTracker = Map.empty, intercomContext = None\<rparr>"

text \<open>The values of an accepted form, with or without a conversation identifier.\<close>

definition example_args :: "string option \<Rightarrow> bg_args" where
  "example_args conversationId =
     \<lparr>bg_email = ''a@b.com'', bg_subject = ''Help'', bg_description = ''It broke'',
      bg_product_id = ''1'', bg_status = [], bg_priority = [],
      bg_conversationId = conversationId\<rparr>"

text \<open>A request to \<open>/api/initialize\<close> for a customer, and an environment that knows one ticket.\<close>

definition initialize_for :: "string \<Rightarrow> initialize_body" where
  "initialize_for email =
     \<lparr>ib_customer_email = Some email, ib_contact_email = None,
      ib_conversation_contact_email = None, ib_contact_name = None, ib_customer_name = None,
      ib_default_description = None, ib_source_body = None\<rparr>"

definition alice_env :: "unit env" where
  "alice_env =
     quiet_env\<lparr>get_recent_tickets :=
       (\<lambda>email. (5, Inr (if email = ''alice@x.com''
          then [\<lparr>tk_id = 7, tk_subject = ''Refund'', tk_created_at = ''2025-01-01T00:00:00Z''\<rparr>]
          else [])))\<rparr>"

section \<open>Proofs: the retrying HTTP client\<close>

lemma next_delay_bounds:
  assumes "0 \<le> d" "0 \<le> r" "r \<le> 1"
  shows "min (d * 2) 10000 * 0.8 \<le> next_delay d r" "next_delay d r \<le> min (d * 2) 10000 * 1.2"
    "0 \<le> next_delay d r"
proof -
  have m: "0 \<le> min (d * 2) 10000" using assms by simp
  have f: "0.8 \<le> 0.8 + r * 0.4" "0.8 + r * 0.4 \<le> 1.2" using assms by simp_all
  show "min (d * 2) 10000 * 0.8 \<le> next_delay d r"
    unfolding next_delay_def using m f by (intro mult_left_mono) simp_all
  show "next_delay d r \<le> min (d * 2) 10000 * 1.2"
    unfolding next_delay_def using m f by (intro mult_left_mono) simp_all
  show "0 \<le> next_delay d r"
    unfolding next_delay_def using m f by (intro mult_nonneg_nonneg) simp_all
qed

lemma retry_loop_slept_head:
  "slept (retry_loop net rnd retries d a) = [] \<or>
   hd (slept (retry_loop net rnd retries d a)) = d"
  by (subst retry_loop.simps, subst (2) retry_loop.simps)
     (simp add: Let_def split: sum.splits)

lemma retry_loop_backoff:
  "\<forall>k. 0 \<le> rnd k \<and> rnd k < 1 \<Longrightarrow> 0 \<le> d \<Longrightarrow>
   backoff_ok (slept (retry_loop net rnd retries d a))"
proof (induction net rnd retries d a rule: retry_loop.induct)
  case (1 net rnd retries currentDelay attempts)
  show ?case
  proof (cases "attempts \<le> retries")
    case False
    then show ?thesis by (simp add: retry_loop.simps)
  next
    case le: True
    show ?thesis
    proof (cases "net attempts")
      case (Inr response)
      with le show ?thesis by (simp add: retry_loop.simps)
    next
      case (Inl error)
      show ?thesis
      proof (cases "Suc attempts > retries")
        case True
        with le Inl show ?thesis by (simp add: retry_loop.simps)
      next
        case False
        let ?d' = "next_delay currentDelay (rnd attempts)"
        let ?run = "retry_loop net rnd retries ?d' (Suc attempts)"
        have r0: "0 \<le> rnd attempts" using "1.prems"(1) by simp
        have "rnd attempts < 1" using "1.prems"(1) by simp
        then have r1: "rnd attempts \<le> 1" by simp
        note r = r0 r1
        have d': "0 \<le> ?d'" using next_delay_bounds(3) [OF "1.prems"(2) r] .
        have ih: "backoff_ok (slept ?run)"
          using "1.IH" [OF le Inl False "1.prems"(1) d'] .
        have eq: "slept (retry_loop net rnd retries currentDelay attempts)
                    = currentDelay # slept ?run"
          using le Inl False by (subst retry_loop.simps) (simp add: Let_def)
        show ?thesis
        proof (cases "slept ?run")
          case Nil
          with eq show ?thesis by simp
        next
          case (Cons b rest)
          have "b = ?d'"
            using retry_loop_slept_head [of net rnd retries ?d' "Suc attempts"] Cons by simp
          then show ?thesis
            using eq Cons ih next_delay_bounds(1,2) [OF "1.prems"(2) r] by simp
        qed
      qed
    qed
  qed
qed

lemma backoff_ok_nth:
  "backoff_ok ds \<Longrightarrow> Suc n < length ds \<Longrightarrow>
   min (ds ! n * 2) 10000 * 0.8 \<le> ds ! Suc n \<and> ds ! Suc n \<le> min (ds ! n * 2) 10000 * 1.2"
proof (induction ds arbitrary: n rule: backoff_ok.induct)
  case (1 a b rest)
  then show ?case by (cases n) auto
qed simp_all

lemma retry_loop_calls_le: "calls (retry_loop net rnd retries d a) \<le> Suc retries - a"
proof (induction net rnd retries d a rule: retry_loop.induct)
  case (1 net rnd retries currentDelay attempts)
  show ?case
  proof (cases "attempts \<le> retries")
    case False
    then show ?thesis by (simp add: retry_loop.simps)
  next
    case le: True
    show ?thesis
    proof (cases "net attempts")
      case (Inr response)
      with le show ?thesis by (simp add: retry_loop.simps)
    next
      case (Inl error)
      show ?thesis
      proof (cases "Suc attempts > retries")
        case True
        with le Inl show ?thesis by (simp add: retry_loop.simps)
      next
        case False
        from "1.IH" [OF le Inl False] le Inl False show ?thesis
          by (subst retry_loop.simps) (simp add: Let_def)
      qed
    qed
  qed
qed

lemma retry_loop_Inr:
  "a \<le> retries \<Longrightarrow> net a = Inr r \<Longrightarrow>
   retry_loop net rnd retries d a = \<lparr>result = Return r, slept = [], calls = 1\<rparr>"
  by (simp add: retry_loop.simps)

lemma retry_loop_last:
  "net retries = Inl e \<Longrightarrow>
   retry_loop net rnd retries d retries = \<lparr>result = Throw e, slept = [], calls = 1\<rparr>"
  by (simp add: retry_loop.simps)

lemma retry_loop_Inl:
  "a < retries \<Longrightarrow> net a = Inl e \<Longrightarrow>
   retry_loop net rnd retries d a =
     (let run = retry_loop net rnd retries (next_delay d (rnd a)) (Suc a)
      in run\<lparr>slept := d # slept run, calls := Suc (calls run)\<rparr>)"
  by (subst retry_loop.simps) simp

text \<open>
  The run of the loop in closed form: the calls made are those up to the first one that
  succeeds, or all \<open>retries + 1\<close> of them.
\<close>

lemma retry_loop_all_fail:
  "a \<le> retries \<Longrightarrow> \<forall>k. a \<le> k \<and> k \<le> retries \<longrightarrow> isl (net k) \<Longrightarrow>
   result (retry_loop net rnd retries d a) = Throw (projl (net retries)) \<and>
   calls (retry_loop net rnd retries d a) = Suc retries - a \<and>
   length (slept (retry_loop net rnd retries d a)) = retries - a"
proof (induction "retries - a" arbitrary: a d)
  case 0
  then have a: "a = retries" by simp
  from "0.prems" a obtain e where e: "net retries = Inl e"
    by (metis order_refl sum.collapse(1))
  show ?case unfolding a using e by (simp add: retry_loop_last)
next
  case (Suc n)
  then have lt: "a < retries" by simp
  from Suc.prems obtain e where e: "net a = Inl e"
    by (metis order_refl sum.collapse(1))
  have ih: "result (retry_loop net rnd retries d' (Suc a)) = Throw (projl (net retries)) \<and>
        calls (retry_loop net rnd retries d' (Suc a)) = Suc retries - Suc a \<and>
        length (slept (retry_loop net rnd retries d' (Suc a))) = retries - Suc a" for d'
    using Suc.hyps(1) [of "Suc a" d'] Suc.hyps(2) Suc.prems lt by simp
  show ?case
    using ih lt e by (auto simp add: retry_loop_Inl Let_def)
qed

lemma retry_loop_first_success:
  "a \<le> k \<Longrightarrow> k \<le> retries \<Longrightarrow> net k = Inr r \<Longrightarrow> \<forall>j. a \<le> j \<and> j < k \<longrightarrow> isl (net j) \<Longrightarrow>
   result (retry_loop net rnd retries d a) = Return r \<and>
   calls (retry_loop net rnd retries d a) = Suc k - a \<and>
   length (slept (retry_loop net rnd retries d a)) = k - a"
proof (induction "k - a" arbitrary: a d)
  case 0
  then have a: "a = k" by simp
  show ?case unfolding a using "0.prems" by (simp add: retry_loop_Inr)
next
  case (Suc n)
  then have lt: "a < k" by simp
  then have lt': "a < retries" using Suc.prems by simp
  from Suc.prems lt obtain e where e: "net a = Inl e"
    by (metis order_refl sum.collapse(1))
  have ih: "result (retry_loop net rnd retries d' (Suc a)) = Return r \<and>
        calls (retry_loop net rnd retries d' (Suc a)) = Suc k - Suc a \<and>
        length (slept (retry_loop net rnd retries d' (Suc a))) = k - Suc a" for d'
    using Suc.hyps(1) [of "Suc a" d'] Suc.hyps(2) Suc.prems lt by simp
  show ?case
    using ih lt lt' e by (auto simp add: retry_loop_Inl Let_def)
qed

lemma retry_loop_cases:
  assumes "a \<le> retries"
  shows "(\<exists>e. net retries = Inl e \<and> (\<forall>k. a \<le> k \<and> k \<le> retries \<longrightarrow> isl (net k)) \<and>
            result (retry_loop net rnd retries d a) = Throw e \<and>
            calls (retry_loop net rnd retries d a) = Suc retries - a) \<or>
         (\<exists>k r. a \<le> k \<and> k \<le> retries \<and> net k = Inr r \<and> (\<forall>j. a \<le> j \<and> j < k \<longrightarrow> isl (net j)) \<and>
            result (retry_loop net rnd retries d a) = Return r \<and>
            calls (retry_loop net rnd retries d a) = Suc k - a)"
proof (cases "\<forall>k. a \<le> k \<and> k \<le> retries \<longrightarrow> isl (net k)")
  case True
  then have "isl (net retries)" using assms by simp
  then obtain e where e: "net retries = Inl e" by (metis sum.collapse(1))
  from retry_loop_all_fail [OF assms True, of rnd d] e True show ?thesis by simp
next
  case False
  define P where "P k \<longleftrightarrow> a \<le> k \<and> k \<le> retries \<and> \<not> isl (net k)" for k
  from False have "\<exists>k. P k" by (auto simp: P_def)
  then obtain k where k: "P k" "\<forall>j<k. \<not> P j"
    using exists_least_iff [of P] by auto
  from k(1) obtain r where r: "net k = Inr r"
    unfolding P_def by (metis sum.collapse(2))
  have before: "\<forall>j. a \<le> j \<and> j < k \<longrightarrow> isl (net j)"
    using k unfolding P_def by auto
  have ak: "a \<le> k" "k \<le> retries" using k(1) unfolding P_def by simp_all
  from retry_loop_first_success [OF ak r before, of rnd d] ak r before
  show ?thesis by blast
qed

text \<open>
  Claim C5.  In every run of \<open>fetchWithRetry\<close> with the default base delay, whatever the
  number of retries and whatever the calls answer: the first delay slept is the base
  delay of 500 ms, and each later delay lies between 0.8 and 1.2 times the doubled
  previous delay capped at 10000 ms, for jitter values \<open>Math.random()\<close> in \<open>[0, 1)\<close>.
\<close>

theorem fetchWithRetry_backoff_interval:
  assumes "\<forall>k. 0 \<le> rnd k \<and> rnd k < 1"
  shows "(slept (fetchWithRetry net rnd retries None) \<noteq> [] \<longrightarrow>
            hd (slept (fetchWithRetry net rnd retries None)) = 500) \<and>
         (\<forall>n. Suc n < length (slept (fetchWithRetry net rnd retries None)) \<longrightarrow>
            min (slept (fetchWithRetry net rnd retries None) ! n * 2) 10000 * 0.8
              \<le> slept (fetchWithRetry net rnd retries None) ! Suc n \<and>
            slept (fetchWithRetry net rnd retries None) ! Suc n
              \<le> min (slept (fetchWithRetry net rnd retries None) ! n * 2) 10000 * 1.2)"
proof -
  let ?n = "case retries of None \<Rightarrow> 3 | Some n \<Rightarrow> n"
  have eq: "fetchWithRetry net rnd retries None = retry_loop net rnd ?n 500 0"
    by (simp add: fetchWithRetry_def)
  have ok: "backoff_ok (slept (retry_loop net rnd ?n 500 0))"
    using retry_loop_backoff [OF assms, of 500 net ?n 0] by simp
  show ?thesis
    unfolding eq
    using retry_loop_slept_head [of net rnd ?n 500 0] backoff_ok_nth [OF ok]
    by auto
qed

theorem fetchWithRetry_backoff_witness:
  "(\<forall>k::nat. (0::real) \<le> 1 / 2 \<and> (1 / 2 :: real) < 1) \<and>
   slept (fetchWithRetry (\<lambda>k. Inl k :: nat + unit) (\<lambda>k. 1 / 2) None None) = [500, 1000, 2000] \<and>
   hd (slept (fetchWithRetry (\<lambda>k. Inl k :: nat + unit) (\<lambda>k. 1 / 2) None None)) = 500 \<and>
   min (slept (fetchWithRetry (\<lambda>k. Inl k :: nat + unit) (\<lambda>k. 1 / 2) None None) ! 1 * 2) 10000 * 0.8
     \<le> slept (fetchWithRetry (\<lambda>k. Inl k :: nat + unit) (\<lambda>k. 1 / 2) None None) ! Suc 1"
proof -
  have h: "\<forall>k::nat. (0::real) \<le> (\<lambda>k. 1 / 2) k \<and> (\<lambda>k. 1 / 2 :: real) k < 1" by simp
  have run: "slept (fetchWithRetry (\<lambda>k. Inl k :: nat + unit) (\<lambda>k. 1 / 2) None None)
               = [500, 1000, 2000]"
    by (simp add: fetchWithRetry_def retry_loop.simps next_delay_def)
  from fetchWithRetry_backoff_interval [OF h, of "\<lambda>k. Inl k :: nat + unit" None]
  show ?thesis unfolding run by simp
qed

text \<open>
  Claim C6.  With the default of 3 retries \<open>fetchWithRetry\<close> makes at most 4 calls.  When
  all 4 fail it throws the error of the 4th, the last one.  When the call number \<open>k\<close> is
  the first to succeed it returns that call's response after \<open>k + 1\<close> calls.  It never
  returns \<open>undefined\<close>, and a response it returns is the response of the last call it
  made: nothing partial and nothing kept from an earlier call.
\<close>

theorem fetchWithRetry_retries_then_throws_last:
  "((\<forall>k. k \<le> 3 \<longrightarrow> isl (net k)) \<longrightarrow>
      result (fetchWithRetry net rnd None d) = Throw (projl (net 3)) \<and>
      calls (fetchWithRetry net rnd None d) = 4) \<and>
   (\<forall>k r. k \<le> 3 \<and> net k = Inr r \<and> (\<forall>j. j < k \<longrightarrow> isl (net j)) \<longrightarrow>
      result (fetchWithRetry net rnd None d) = Return r \<and>
      calls (fetchWithRetry net rnd None d) = Suc k) \<and>
   (\<forall>r. result (fetchWithRetry net rnd None d) = Return r \<longrightarrow>
      net (calls (fetchWithRetry net rnd None d) - 1) = Inr r) \<and>
   result (fetchWithRetry net rnd None d) \<noteq> ReturnUndefined \<and>
   1 \<le> calls (fetchWithRetry net rnd None d) \<and> calls (fetchWithRetry net rnd None d) \<le> 4"
proof -
  let ?d = "case d of None \<Rightarrow> 500 | Some x \<Rightarrow> x"
  have eq: "fetchWithRetry net rnd None d = retry_loop net rnd 3 ?d 0"
    by (simp add: fetchWithRetry_def)
  have a: "(\<forall>k. k \<le> 3 \<longrightarrow> isl (net k)) \<longrightarrow>
      result (retry_loop net rnd 3 ?d 0) = Throw (projl (net 3)) \<and>
      calls (retry_loop net rnd 3 ?d 0) = 4"
    using retry_loop_all_fail [of 0 3 net rnd ?d] by simp
  have b: "\<forall>k r. k \<le> 3 \<and> net k = Inr r \<and> (\<forall>j. j < k \<longrightarrow> isl (net j)) \<longrightarrow>
      result (retry_loop net rnd 3 ?d 0) = Return r \<and>
      calls (retry_loop net rnd 3 ?d 0) = Suc k"
  proof (intro allI impI)
    fix k r
    assume h: "k \<le> 3 \<and> net k = Inr r \<and> (\<forall>j. j < k \<longrightarrow> isl (net j))"
    then have "\<forall>j. 0 \<le> j \<and> j < k \<longrightarrow> isl (net j)" by simp
    from retry_loop_first_success [of 0 k 3 net r, OF _ _ _ this, of rnd ?d] h
    show "result (retry_loop net rnd 3 ?d 0) = Return r \<and>
          calls (retry_loop net rnd 3 ?d 0) = Suc k" by simp
  qed
  have c: "(\<forall>r. result (retry_loop net rnd 3 ?d 0) = Return r \<longrightarrow>
              net (calls (retry_loop net rnd 3 ?d 0) - 1) = Inr r) \<and>
           result (retry_loop net rnd 3 ?d 0) \<noteq> ReturnUndefined \<and>
           1 \<le> calls (retry_loop net rnd 3 ?d 0) \<and> calls (retry_loop net rnd 3 ?d 0) \<le> 4"
    using retry_loop_cases [of 0 3 net rnd ?d] by auto
  show ?thesis unfolding eq using a b c by blast
qed

theorem fetchWithRetry_retries_then_throws_last_witness:
  "(\<forall>k::nat. isl (Inl k :: nat + unit)) \<and>
   result (fetchWithRetry (\<lambda>k. Inl k :: nat + unit) (\<lambda>k. 0) None None) = Throw 3 \<and>
   calls (fetchWithRetry (\<lambda>k. Inl k :: nat + unit) (\<lambda>k. 0) None None) = 4"
  using fetchWithRetry_retries_then_throws_last [of "\<lambda>k. Inl k :: nat + unit" "\<lambda>k. 0" None]
  by simp

section \<open>Proofs: the banner merge\<close>

lemma count_occ_zero_iff: "count_occ pat s = 0 \<longleftrightarrow> \<not> sublist pat s"
proof (induction s)
  case Nil
  show ?case by simp
next
  case (Cons c cs)
  show ?case using Cons.IH by (simp add: sublist_Cons_right)
qed

lemma split_first_Some:
  "split_first pat s = Some (front, behind) \<Longrightarrow> s = front @ pat @ behind"
proof (induction s arbitrary: front)
  case Nil
  then show ?case by (simp split: if_splits)
next
  case (Cons c cs)
  show ?case
  proof (cases "prefix pat (c # cs)")
    case True
    then obtain zs where zs: "c # cs = pat @ zs" by (auto simp: prefix_def)
    from True Cons.prems have "front = []" "behind = drop (length pat) (c # cs)" by simp_all
    then show ?thesis using zs by simp
  next
    case False
    with Cons.prems obtain b where b: "split_first pat cs = Some (b, behind)" "front = c # b"
      by (auto split: option.splits)
    from Cons.IH [OF b(1)] b(2) show ?thesis by simp
  qed
qed

lemma split_first_None: "split_first pat s = None \<longleftrightarrow> \<not> sublist pat s"
proof (induction s)
  case Nil
  show ?case by simp
next
  case (Cons c cs)
  show ?case using Cons.IH by (auto simp: sublist_Cons_right split: option.splits)
qed

lemma get_substitution_plain:
  "CHR ''$'' \<notin> set replacement \<Longrightarrow> get_substitution m b a replacement = replacement"
  by (induction m b a replacement rule: get_substitution.induct) auto

lemma count_occ_skip:
  "pat = p # ps \<Longrightarrow> p \<notin> set xs \<Longrightarrow> count_occ pat (xs @ ys) = count_occ pat ys"
  by (induction xs) auto

lemma prefix_within:
  "length pat \<le> length u \<Longrightarrow> prefix pat (u @ x) \<longleftrightarrow> prefix pat u"
  by (auto simp: prefix_append)

lemma count_occ_context:
  "count_occ pat (b @ pat @ x) + count_occ pat (pat @ y) =
   count_occ pat (b @ pat @ y) + count_occ pat (pat @ x)"
proof (induction b)
  case Nil
  show ?case by simp
next
  case (Cons c b)
  have "prefix pat ((c # b @ pat) @ x) \<longleftrightarrow> prefix pat ((c # b @ pat) @ y)"
    by (simp only: prefix_within [of pat "c # b @ pat"] length_Cons length_append)
  then show ?case using Cons.IH by simp
qed

lemma count_occ_self:
  "pat = p # ps \<Longrightarrow> p \<notin> set ps \<Longrightarrow> count_occ pat (pat @ x) = Suc (count_occ pat x)"
  using count_occ_skip [of pat p ps ps x] by simp

lemma rtrim_keep:
  "\<not> js_whitespace c \<Longrightarrow>
   rev (dropWhile js_whitespace (rev (xs @ c # ys))) = xs @ c # rev (dropWhile js_whitespace (rev ys))"
  by (simp add: dropWhile_append)

lemma set_rtrim: "set (rev (dropWhile js_whitespace (rev ys))) \<subseteq> set ys"
  using set_dropWhileD by fastforce

lemma anchor_head: "anchor = CHR ''C'' # ''hat Transcript Added''"
  by (simp add: anchor_def)

text \<open>The trimmed banner: the anchor phrase, a blank line, and the URL line trimmed on the right.\<close>

lemma rtrim_url_tail:
  "rev (dropWhile js_whitespace (rev (CHR '' '' # url @ [CHR 0x0A, CHR 0x0A])))
     = rev (dropWhile js_whitespace (rev (CHR '' '' # url)))"
proof -
  have ws: "js_whitespace (CHR 0x0A)" by (simp add: js_whitespace_def)
  have "rev (CHR '' '' # url @ [CHR 0x0A, CHR 0x0A]) = CHR 0x0A # CHR 0x0A # rev (CHR '' '' # url)"
    by simp
  then show ?thesis using ws by (simp only: dropWhile.simps if_True)
qed

lemma js_trim_urlSection:
  "\<exists>r. js_trim (urlSection url) = anchor @ [CHR 0x0A, CHR 0x0A] @ ''Intercom Conversation URL:'' @ r \<and>
        set r \<subseteq> insert (CHR '' '') (set url)"
proof -
  let ?ys = "CHR '' '' # url @ [CHR 0x0A, CHR 0x0A]"
  let ?r = "rev (dropWhile js_whitespace (rev ?ys))"
  let ?pre = "anchor @ [CHR 0x0A, CHR 0x0A] @ ''Intercom Conversation URL''"
  have full: "urlSection url = ?pre @ CHR '':'' # ?ys"
    by (simp add: urlSection_def url_line_def)
  have nws: "\<not> js_whitespace (CHR ''C'')" "\<not> js_whitespace (CHR '':'')"
    by (simp_all add: js_whitespace_def)
  have "dropWhile js_whitespace (urlSection url) = urlSection url"
    using nws(1) by (simp add: urlSection_def anchor_def)
  then have "js_trim (urlSection url) = rev (dropWhile js_whitespace (rev (?pre @ CHR '':'' # ?ys)))"
    by (simp only: js_trim_def full)
  also have "\<dots> = ?pre @ CHR '':'' # ?r"
    using nws(2) by (rule rtrim_keep)
  finally have eq: "js_trim (urlSection url) =
      anchor @ [CHR 0x0A, CHR 0x0A] @ ''Intercom Conversation URL:'' @ ?r"
    by simp
  have "set (rev (dropWhile js_whitespace (rev (CHR '' '' # url)))) \<subseteq> set (CHR '' '' # url)"
    by (rule set_rtrim)
  then have sr: "set ?r \<subseteq> insert (CHR '' '') (set url)"
    by (simp only: rtrim_url_tail list.set)
  show ?thesis using eq sr by blast
qed

lemma count_occ_after_banner_tail:
  assumes "CHR ''C'' \<notin> set r"
  shows "count_occ anchor ([CHR 0x0A, CHR 0x0A] @ ''Intercom Conversation URL:'' @ r @ x) = count_occ anchor x"
proof -
  have np: "\<not> prefix anchor (CHR ''C'' # ''onversation URL:'' @ r @ x)"
    by (simp add: anchor_def)
  have "count_occ anchor (([CHR 0x0A, CHR 0x0A] @ ''Intercom '') @ CHR ''C'' # ''onversation URL:'' @ r @ x)
          = count_occ anchor (CHR ''C'' # ''onversation URL:'' @ r @ x)"
    by (rule count_occ_skip [OF anchor_head]) simp
  also have "\<dots> = count_occ anchor ((''onversation URL:'' @ r) @ x)" using np by simp
  also have "\<dots> = count_occ anchor x"
    by (rule count_occ_skip [OF anchor_head]) (use assms in simp)
  finally show ?thesis by simp
qed

lemma count_occ_prepend:
  assumes "CHR ''C'' \<notin> set url"
  shows "count_occ anchor (urlSection url @ d) = Suc (count_occ anchor d)"
proof -
  let ?r = "CHR '' '' # url @ [CHR 0x0A, CHR 0x0A]"
  let ?x = "[CHR 0x0A, CHR 0x0A] @ ''Intercom Conversation URL:'' @ ?r @ d"
  have c: "CHR ''C'' \<notin> set ?r" using assms by simp
  have "urlSection url @ d = anchor @ ?x"
    by (simp add: urlSection_def url_line_def)
  moreover have "count_occ anchor (anchor @ ?x) = Suc (count_occ anchor ?x)"
    by (rule count_occ_self [OF anchor_head]) simp
  moreover have "count_occ anchor ?x = count_occ anchor d"
    by (rule count_occ_after_banner_tail [OF c])
  ultimately show ?thesis by simp
qed

lemma count_occ_replace:
  assumes "CHR ''C'' \<notin> set url"
  shows "count_occ anchor (front @ js_trim (urlSection url) @ behind)
           = count_occ anchor (front @ anchor @ behind)"
proof -
  obtain r where t: "js_trim (urlSection url)
        = anchor @ [CHR 0x0A, CHR 0x0A] @ ''Intercom Conversation URL:'' @ r"
      "set r \<subseteq> insert (CHR '' '') (set url)"
    using js_trim_urlSection [of url] by blast
  have c: "CHR ''C'' \<notin> set r" using t(2) assms by auto
  let ?x = "[CHR 0x0A, CHR 0x0A] @ ''Intercom Conversation URL:'' @ r @ behind"
  have x: "count_occ anchor ?x = count_occ anchor behind"
    by (rule count_occ_after_banner_tail [OF c])
  have "count_occ anchor (front @ anchor @ ?x) + count_occ anchor (anchor @ behind)
          = count_occ anchor (front @ anchor @ behind) + count_occ anchor (anchor @ ?x)"
    by (rule count_occ_context)
  moreover have "count_occ anchor (anchor @ ?x) = Suc (count_occ anchor ?x)"
    by (rule count_occ_self [OF anchor_head]) simp
  moreover have "count_occ anchor (anchor @ behind) = Suc (count_occ anchor behind)"
    by (rule count_occ_self [OF anchor_head]) simp
  ultimately have "count_occ anchor (front @ anchor @ ?x) = count_occ anchor (front @ anchor @ behind)"
    using x by simp
  moreover have "front @ js_trim (urlSection url) @ behind = front @ anchor @ ?x"
    by (simp add: t(1))
  ultimately show ?thesis by simp
qed

lemma js_trim_urlSection_plain:
  assumes "CHR ''$'' \<notin> set url"
  shows "CHR ''$'' \<notin> set (js_trim (urlSection url))"
proof -
  obtain r where t: "js_trim (urlSection url)
        = anchor @ [CHR 0x0A, CHR 0x0A] @ ''Intercom Conversation URL:'' @ r"
      "set r \<subseteq> insert (CHR '' '') (set url)"
    using js_trim_urlSection [of url] by blast
  have "CHR ''$'' \<notin> set r" using t(2) assms by auto
  then show ?thesis by (simp add: t(1) anchor_def)
qed

lemma merge_banner_replace:
  assumes "CHR ''$'' \<notin> set url" "split_first anchor d = Some (front, behind)"
  shows "merge_banner url d = front @ js_trim (urlSection url) @ behind"
proof -
  have d: "d = front @ anchor @ behind" using split_first_Some [OF assms(2)] .
  have inc: "js_includes d anchor" unfolding d by (simp add: js_includes_def)
  have ne: "d \<noteq> []" unfolding d by (simp add: anchor_def)
  show ?thesis
    using inc ne assms(2) get_substitution_plain [OF js_trim_urlSection_plain [OF assms(1)]]
    by (simp add: merge_banner_def js_replace_def)
qed

text \<open>
  Claim C4, as amended.  For a URL without the characters \<open>$\<close> and \<open>C\<close>: a description that
  contains the anchor phrase has its first occurrence replaced by the trimmed banner
  (the anchor phrase, a blank line and the URL line), any other description has the
  banner prepended, and the result holds the anchor phrase as many times as the
  description did, or once when the description did not hold it.
\<close>

theorem merge_banner_anchor_count:
  assumes "CHR ''C'' \<notin> set url" "CHR ''$'' \<notin> set url"
  shows "(js_includes d anchor \<longrightarrow>
            (\<exists>front behind. split_first anchor d = Some (front, behind) \<and>
               d = front @ anchor @ behind \<and>
               merge_banner url d = front @ js_trim (urlSection url) @ behind)) \<and>
         (\<not> js_includes d anchor \<longrightarrow> merge_banner url d = urlSection url @ d) \<and>
         count_occ anchor (merge_banner url d) = max 1 (count_occ anchor d)"
proof (cases "js_includes d anchor")
  case True
  then have "split_first anchor d \<noteq> None"
    by (simp add: split_first_None js_includes_def)
  then obtain front behind where s: "split_first anchor d = Some (front, behind)" by auto
  have d: "d = front @ anchor @ behind" using split_first_Some [OF s] .
  have m: "merge_banner url d = front @ js_trim (urlSection url) @ behind"
    using merge_banner_replace [OF assms(2) s] .
  have "count_occ anchor d \<noteq> 0"
    using True by (simp add: count_occ_zero_iff js_includes_def)
  then have "count_occ anchor (merge_banner url d) = max 1 (count_occ anchor d)"
    unfolding m count_occ_replace [OF assms(1)] using d by simp
  then show ?thesis using True s d m by simp
next
  case False
  then have z: "count_occ anchor d = 0"
    by (simp add: count_occ_zero_iff js_includes_def)
  have m: "merge_banner url d = urlSection url @ d"
    using False by (simp add: merge_banner_def)
  show ?thesis using False m z count_occ_prepend [OF assms(1), of d] by simp
qed

theorem merge_banner_anchor_count_witness:
  "CHR ''C'' \<notin> set (intercomUrl ''https://app.intercom.com/a/inbox/w1'' ''42'') \<and>
   CHR ''$'' \<notin> set (intercomUrl ''https://app.intercom.com/a/inbox/w1'' ''42'') \<and>
   js_includes ''Chat Transcript Added'' anchor \<and>
   count_occ anchor ''Chat Transcript Added'' = 1 \<and>
   count_occ anchor (merge_banner (intercomUrl ''https://app.intercom.com/a/inbox/w1'' ''42'')
      ''Chat Transcript Added'') = 1"
proof -
  let ?U = "intercomUrl ''https://app.intercom.com/a/inbox/w1'' ''42''"
  have c: "CHR ''C'' \<notin> set ?U" by (simp add: intercomUrl_def)
  have d: "CHR ''$'' \<notin> set ?U" by (simp add: intercomUrl_def)
  have i: "js_includes ''Chat Transcript Added'' anchor"
    by (simp add: js_includes_def anchor_def)
  have n: "count_occ anchor ''Chat Transcript Added'' = 1"
    by (simp add: anchor_def)
  have "count_occ anchor (merge_banner ?U ''Chat Transcript Added'')
          = max 1 (count_occ anchor ''Chat Transcript Added'')"
    using merge_banner_anchor_count [OF c d, of "''Chat Transcript Added''"] by (elim conjE)
  then have m: "count_occ anchor (merge_banner ?U ''Chat Transcript Added'') = 1"
    by (simp only: n max.idem)
  show ?thesis by (intro conjI c d i n m)
qed

text \<open>
  The claim as stated fails: the merge is not idempotent.  Merging the banner into a
  description that was itself produced by a merge replaces the anchor phrase inside the
  banner that is there by a whole banner, so the result has the URL line twice.
\<close>

theorem merge_banner_not_idempotent:
  "merge_banner (intercomUrl ''https://x.io'' ''7'')
     (merge_banner (intercomUrl ''https://x.io'' ''7'') ''Help'')
   \<noteq> merge_banner (intercomUrl ''https://x.io'' ''7'') ''Help'' \<and>
   js_includes (merge_banner (intercomUrl ''https://x.io'' ''7'') ''Help'')
     (js_trim (urlSection (intercomUrl ''https://x.io'' ''7''))) \<and>
   count_occ (url_line (intercomUrl ''https://x.io'' ''7''))
     (merge_banner (intercomUrl ''https://x.io'' ''7'') ''Help'') = 1 \<and>
   count_occ (url_line (intercomUrl ''https://x.io'' ''7''))
     (merge_banner (intercomUrl ''https://x.io'' ''7'')
        (merge_banner (intercomUrl ''https://x.io'' ''7'') ''Help'')) = 2"
  by code_simp

section \<open>Proofs: the race of the main path with the timer\<close>

lemma effs_append: "effs (xs @ ys) = effs xs @ effs ys"
  by (simp add: effs_def)

lemma effs_Cons: "effs ((t, e) # es) = (t, Eff e) # effs es"
  by (simp add: effs_def)

lemma effs_Nil: "effs [] = []"
  by (simp add: effs_def)

lemma interp_effs: "interp s (effs es) = (s, es)"
  by (induction es) (auto simp: effs_Nil effs_Cons)

lemma interp_effs_Cons: "interp s (effs es @ rest) = (fst (interp s rest), es @ snd (interp s rest))"
  by (induction es) (auto simp: effs_Nil effs_Cons split: prod.splits)

lemma takeWhile_effs:
  "takeWhile (\<lambda>(t, a). t < d) (effs es) = effs (takeWhile (\<lambda>(t, e). t < d) es)"
  by (induction es) (auto simp: effs_Nil effs_Cons)

lemma dropWhile_effs:
  "dropWhile (\<lambda>(t, a). t < d) (effs es) = effs (dropWhile (\<lambda>(t, e). t < d) es)"
  by (induction es) (auto simp: effs_Nil effs_Cons)

lemma merge_timed_Nil2: "merge_timed xs [] = xs"
  by (cases xs) simp_all

text \<open>
  When the main path calls \<open>sendResponse\<close> before the deadline, after effects only, the
  timer is cleared and the trace is the one of the main path alone.
\<close>

lemma race_sent_early:
  assumes pre: "\<forall>x \<in> set pre. fst x < deadline" and t: "t < deadline"
  shows "race timer (effs pre @ (t, SendResponse r) # effs post)
           = pre @ (t, ClearTimeout) # (t, ResJson r) # post"
proof -
  let ?P = "\<lambda>(t, a :: action). t < deadline"
  let ?Q = "\<lambda>(t, e :: effect). t < deadline"
  let ?acts = "effs pre @ (t, SendResponse r) # effs post"
  have all: "\<forall>x \<in> set (effs pre). ?P x"
    using pre by (auto simp: effs_def)
  have early: "takeWhile ?P ?acts = effs pre @ (t, SendResponse r) # effs (takeWhile ?Q post)"
    using all t by (simp add: takeWhile_effs)
  have late: "dropWhile ?P ?acts = effs (dropWhile ?Q post)"
    using all t by (simp add: dropWhile_effs)
  have i1: "interp False (takeWhile ?P ?acts)
      = (True, pre @ (t, ClearTimeout) # (t, ResJson r) # takeWhile ?Q post)"
    unfolding early by (simp add: interp_effs_Cons interp_effs)
  have i2: "interp True (dropWhile ?P ?acts) = (True, dropWhile ?Q post)"
    unfolding late by (simp add: interp_effs)
  show ?thesis
    unfolding race_def Let_def i1 by (simp add: i2)
qed

text \<open>The callback of the timer calls \<open>res.json\<close> once.\<close>

lemma responses_append: "responses (xs @ ys) = responses xs @ responses ys"
  by (simp add: responses_def)

lemma responses_timer_effects: "length (responses (timer_effects env b ctx)) = 1"
  by (simp add: timer_effects_def responses_def Let_def)

text \<open>
  Claim C1 fails on the branches that call \<open>res.json\<close> directly.  For every request whose
  \<open>component_id\<close> is none of \<open>create_ticket\<close>, \<open>submit_ticket_button\<close> and \<open>cancel\<close>, the
  handler calls \<open>res.json\<close> at once without setting \<open>responseSent\<close> or clearing the timer,
  and the callback of the timer calls \<open>res.json\<close> again at the deadline: two calls for one
  request.
\<close>

theorem direct_branch_sends_twice:
  assumes "component_id b \<noteq> Some ''create_ticket''"
    and "component_id b \<noteq> Some ''submit_ticket_button''"
    and "component_id b \<noteq> Some ''cancel''"
  shows "length (responses (submit_trace env b)) = 2 \<and>
         submit_trace env b =
           (0, ContextSet (submit_context b)) #
           (0, ResJson (Json 200 (CanvasBody (home_view env ''Create a Freshdesk Ticket'' [])))) #
           timer_effects env b (submit_context b)"
proof -
  let ?home = "Json 200 (CanvasBody (home_view env ''Create a Freshdesk Ticket'' []))"
  have acts: "submit_actions env b (submit_context b) = [(0, Eff (ResJson ?home))]"
    using assms by (simp add: submit_actions_def)
  have r: "race timer [(0, Eff (ResJson ?home))] = (0, ResJson ?home) # timer" for timer
    by (simp add: race_def deadline_def merge_timed_Nil2)
  have tr: "submit_trace env b =
      (0, ContextSet (submit_context b)) # (0, ResJson ?home) # timer_effects env b (submit_context b)"
    by (simp add: submit_trace_def acts r)
  have "length (responses (submit_trace env b)) = 2"
    unfolding tr using responses_timer_effects [of env b "submit_context b"]
    by (simp add: responses_def)
  then show ?thesis using tr by simp
qed

theorem direct_branch_sends_twice_witness:
  "component_id (bare_body ''retry_button'') \<noteq> Some ''create_ticket'' \<and>
   component_id (bare_body ''retry_button'') \<noteq> Some ''submit_ticket_button'' \<and>
   component_id (bare_body ''retry_button'') \<noteq> Some ''cancel'' \<and>
   length (responses (submit_trace quiet_env (bare_body ''retry_button''))) = 2"
proof -
  have a: "component_id (bare_body ''retry_button'') \<noteq> Some ''create_ticket''"
    and b: "component_id (bare_body ''retry_button'') \<noteq> Some ''submit_ticket_button''"
    and c: "component_id (bare_body ''retry_button'') \<noteq> Some ''cancel''"
    by (simp_all add: bare_body_def)
  have l: "length (responses (submit_trace quiet_env (bare_body ''retry_button''))) = 2"
    using direct_branch_sends_twice [OF a b c, of quiet_env] by (rule conjunct1)
  show ?thesis by (intro conjI a b c l)
qed

section \<open>Proofs: the check of the required fields\<close>

lemma fd_calls_Call:
  "x \<in> set (fd_calls (fetch_form_data env)) \<Longrightarrow> \<exists>c. snd x = Call c"
  by (auto simp: fetch_form_data_def Let_def split: sum.splits option.splits)

lemma fd_calls_early:
  "x \<in> set (fd_calls (fetch_form_data env)) \<Longrightarrow> fst x \<le> fd_elapsed (fetch_form_data env)"
  by (auto simp: fetch_form_data_def Let_def split: sum.splits option.splits)

lemma responses_Calls: "\<forall>x \<in> set es. \<exists>c. snd x = Call c \<Longrightarrow> responses es = []"
  by (induction es) (auto simp: responses_def)

lemma tracker_writes_Calls: "\<forall>x \<in> set es. \<exists>c. snd x = Call c \<Longrightarrow> tracker_writes es = []"
  by (induction es) (auto simp: tracker_writes_def)

lemma tracker_writes_append: "tracker_writes (xs @ ys) = tracker_writes xs @ tracker_writes ys"
  by (simp add: tracker_writes_def)

lemma final_state_Calls:
  "\<forall>x \<in> set es. \<exists>c. snd x = Call c \<Longrightarrow> final_state st es = st"
  by (induction es arbitrary: st) (auto simp: final_state_def)

lemma final_state_append: "final_state st (xs @ ys) = final_state (final_state st xs) ys"
  by (simp add: final_state_def)

lemma final_state_Cons: "final_state st (x # xs) = final_state (apply_effect st (snd x)) xs"
  by (simp add: final_state_def)

lemma final_state_Nil: "final_state st [] = st"
  by (simp add: final_state_def)

lemma flagged_fields_error_form:
  "flagged_fields (error_form e s iv ctx mbs scs pcs) =
     (if e then [(''email'', ''Email is required'')] else []) @
     (if s then [(''subject'', ''Subject is required'')] else [])"
  by (cases mbs) (simp_all add: flagged_fields_def error_form_def form_buttons_def)

text \<open>
  Claim C2, as amended.  A submission of the ticket form whose email or subject is absent
  or empty after trimming, and for which the data of the form is fetched before the
  deadline of 9 seconds, gets one response: the re-rendered form, in which exactly the
  empty fields among email and subject carry their error message.  Nothing is written to
  the tracker.
\<close>

theorem empty_required_field_rerenders_form:
  assumes "component_id b = Some ''submit_ticket_button''"
    and "is_blank (iv_email (input_values b)) \<or> is_blank (iv_subject (input_values b))"
    and "fd_elapsed (fetch_form_data env) < deadline"
  shows "responses (submit_trace env b) =
           [Json 200 (CanvasBody
              (error_form (is_blank (iv_email (input_values b))) (is_blank (iv_subject (input_values b)))
                 (input_values b) (submit_context b)
                 (filter mb_active (fd_mailboxes (fetch_form_data env)))
                 (fd_statusChoices (fetch_form_data env))
                 (fd_priorityChoices (fetch_form_data env))))] \<and>
         flagged_fields
           (error_form (is_blank (iv_email (input_values b))) (is_blank (iv_subject (input_values b)))
              (input_values b) (submit_context b)
              (filter mb_active (fd_mailboxes (fetch_form_data env)))
              (fd_statusChoices (fetch_form_data env))
              (fd_priorityChoices (fetch_form_data env))) =
           (if is_blank (iv_email (input_values b)) then [(''email'', ''Email is required'')] else []) @
           (if is_blank (iv_subject (input_values b)) then [(''subject'', ''Subject is required'')] else []) \<and>
         tracker_writes (submit_trace env b) = [] \<and>
         ticketTracker (final_state st (submit_trace env b)) = ticketTracker st"
proof -
  let ?fd = "fetch_form_data env"
  let ?view = "error_form (is_blank (iv_email (input_values b))) (is_blank (iv_subject (input_values b)))
                 (input_values b) (submit_context b) (filter mb_active (fd_mailboxes ?fd))
                 (fd_statusChoices ?fd) (fd_priorityChoices ?fd)"
  let ?r = "Json 200 (CanvasBody ?view)"
  have acts: "submit_actions env b (submit_context b)
      = effs (fd_calls ?fd) @ (fd_elapsed ?fd, SendResponse ?r) # effs []"
    using assms(1,2) by (simp add: submit_actions_def submit_ticket_actions_def Let_def effs_Nil)
  have pre: "\<forall>x \<in> set (fd_calls ?fd). fst x < deadline"
    using fd_calls_early [of _ env] assms(3) by fastforce
  have calls: "\<forall>x \<in> set (fd_calls ?fd). \<exists>c. snd x = Call c"
    using fd_calls_Call by blast
  have tr: "submit_trace env b = (0, ContextSet (submit_context b)) #
      fd_calls ?fd @ [(fd_elapsed ?fd, ClearTimeout), (fd_elapsed ?fd, ResJson ?r)]"
    unfolding submit_trace_def acts race_sent_early [OF pre assms(3)] by simp
  have r: "responses (submit_trace env b) = [?r]"
    unfolding tr using responses_Calls [OF calls]
    by (simp add: responses_def)
  have w: "tracker_writes (submit_trace env b) = []"
    unfolding tr using tracker_writes_Calls [OF calls]
    by (simp add: tracker_writes_def)
  have f: "ticketTracker (final_state st (submit_trace env b)) = ticketTracker st"
    unfolding tr
    by (simp add: final_state_Cons final_state_append final_state_Calls [OF calls] final_state_Nil)
  show ?thesis using r w f flagged_fields_error_form by simp
qed

theorem empty_required_field_rerenders_form_witness:
  "component_id ((bare_body ''submit_ticket_button'')
      \<lparr>input_values := form_values [] ''Help'' None None\<rparr>) = Some ''submit_ticket_button'' \<and>
   is_blank (iv_email (input_values ((bare_body ''submit_ticket_button'')
      \<lparr>input_values := form_values [] ''Help'' None None\<rparr>))) \<and>
   fd_elapsed (fetch_form_data quiet_env) < deadline \<and>
   flagged_fields
     (error_form True False (form_values [] ''Help'' None None)
        (submit_context ((bare_body ''submit_ticket_button'')
           \<lparr>input_values := form_values [] ''Help'' None None\<rparr>)) [] [] [])
     = [(''email'', ''Email is required'')] \<and>
   tracker_writes (submit_trace quiet_env ((bare_body ''submit_ticket_button'')
      \<lparr>input_values := form_values [] ''Help'' None None\<rparr>)) = []"
proof -
  let ?b = "(bare_body ''submit_ticket_button'')\<lparr>input_values := form_values [] ''Help'' None None\<rparr>"
  have a: "component_id ?b = Some ''submit_ticket_button''"
    by (simp add: bare_body_def)
  have e: "is_blank (iv_email (input_values ?b))"
    by (simp add: bare_body_def form_values_def is_blank_def truthy_def)
  have t: "fd_elapsed (fetch_form_data quiet_env) < deadline"
    by (simp add: fetch_form_data_def quiet_env_def deadline_def)
  have f: "flagged_fields (error_form True False (form_values [] ''Help'' None None)
        (submit_context ?b) [] [] []) = [(''email'', ''Email is required'')]"
    by (simp add: flagged_fields_error_form)
  have w: "tracker_writes (submit_trace quiet_env ?b) = []"
    using empty_required_field_rerenders_form [OF a disjI1 [OF e] t, of empty_state]
    by (rule conjunct2 [THEN conjunct2, THEN conjunct1])
  show ?thesis by (intro conjI a e t f w)
qed

text \<open>
  The claim as stated fails: the server checks only that email and subject are not
  empty.  A submission whose email is not an email address is accepted: the response is
  the homepage, and the tracker gets an entry under that email.
\<close>

theorem malformed_email_is_accepted:
  "responses (submit_trace quiet_env ((bare_body ''submit_ticket_button'')
      \<lparr>input_values := form_values ''not-an-email'' ''Help'' (Some ''It broke'') (Some ''product_1'')\<rparr>))
     = [Json 200 (CanvasBody (home_view quiet_env ''Create a Freshdesk Ticket'' []))] \<and>
   tracker_writes (submit_trace quiet_env ((bare_body ''submit_ticket_button'')
      \<lparr>input_values := form_values ''not-an-email'' ''Help'' (Some ''It broke'') (Some ''product_1'')\<rparr>))
     = [(''not-an-email'', InProgress 5), (''not-an-email'', Completed 42 10)]"
  by code_simp

section \<open>Proofs: the background task\<close>

lemma bg_failure_effects:
  "x \<in> set (bg_failure env a t e) \<Longrightarrow>
   (\<exists>c. snd x = Call c) \<or> (\<exists>s. snd x = ConsoleError s) \<or> (\<exists>v. snd x = TrackerSet (bg_email a) v)"
  by (auto simp: bg_failure_def Let_def split: if_splits)

lemma bg_failure_writes:
  "bg_email a \<noteq> [] \<Longrightarrow>
   \<exists>t'. tracker_writes (bg_failure env a t e) = [(bg_email a, Failed (error_text e) t')] \<and>
        last (bg_failure env a t e) = (t', TrackerSet (bg_email a) (Failed (error_text e) t'))"
  by (simp add: bg_failure_def Let_def tracker_writes_def)

lemma bg_create_effects:
  "x \<in> set (bg_create env a t d) \<Longrightarrow>
   (\<exists>c. snd x = Call c) \<or> (\<exists>s. snd x = ConsoleError s) \<or> (\<exists>v. snd x = TrackerSet (bg_email a) v)"
  by (auto simp: bg_create_def Let_def split: if_splits sum.splits dest: bg_failure_effects)

lemma bg_transcript_effects:
  "x \<in> set (snd (snd (bg_transcript env a t))) \<Longrightarrow>
   (\<exists>c. snd x = Call c) \<or> (\<exists>s. snd x = ConsoleError s)"
  by (auto simp: bg_transcript_def Let_def split: if_splits sum.splits)

lemma bg_task_effects:
  "x \<in> set (bg_task env a t) \<Longrightarrow>
   (\<exists>c. snd x = Call c) \<or> (\<exists>s. snd x = ConsoleError s) \<or> (\<exists>v. snd x = TrackerSet (bg_email a) v)"
proof -
  assume x: "x \<in> set (bg_task env a t)"
  obtain t1 d es where tr: "bg_transcript env a t = (t1, d, es)"
    by (cases "bg_transcript env a t") auto
  from x have "x \<in> set es \<or> x \<in> set (bg_create env a t1 d)"
    by (simp add: bg_task_def tr)
  then show ?thesis
  proof
    assume "x \<in> set es"
    then show ?thesis using bg_transcript_effects [of x env a t] tr by auto
  next
    assume "x \<in> set (bg_create env a t1 d)"
    then show ?thesis by (rule bg_create_effects)
  qed
qed

lemma tracker_writes_quiet:
  "\<forall>x \<in> set es. (\<exists>c. snd x = Call c) \<or> (\<exists>s. snd x = ConsoleError s) \<Longrightarrow> tracker_writes es = []"
  by (induction es) (auto simp: tracker_writes_def)

lemma responses_quiet:
  "\<forall>x \<in> set es. (\<exists>c. snd x = Call c) \<or> (\<exists>s. snd x = ConsoleError s) \<or> (\<exists>k v. snd x = TrackerSet k v)
   \<Longrightarrow> responses es = []"
  by (induction es) (auto simp: responses_def)

lemma tracker_writes_Cons_Call: "tracker_writes ((t, Call c) # es) = tracker_writes es"
  by (simp add: tracker_writes_def)

text \<open>
  The task ends by writing one terminal entry under the email of the submission, and
  writes the tracker nowhere else.
\<close>

lemma bg_create_terminal:
  assumes "bg_email a \<noteq> []"
  shows "\<exists>t' entry. tracker_writes (bg_create env a t d) = [(bg_email a, entry)] \<and>
           \<not> inProgress entry \<and> last (bg_create env a t d) = (t', TrackerSet (bg_email a) entry)"
proof -
  let ?td = "build_ticket_data a d"
  let ?cid = "or_empty (bg_conversationId a)"
  let ?add = "if truthy (bg_conversationId a) then snd (addConversationTranscriptToTicket env ?td ?cid)
              else Inr ?td"
  show ?thesis
  proof (cases ?add)
    case (Inl e)
    let ?t2 = "if truthy (bg_conversationId a)
               then t + fst (addConversationTranscriptToTicket env ?td ?cid) else t"
    obtain t' where f: "tracker_writes (bg_failure env a ?t2 e) = [(bg_email a, Failed (error_text e) t')]"
        "last (bg_failure env a ?t2 e) = (t', TrackerSet (bg_email a) (Failed (error_text e) t'))"
      using bg_failure_writes [OF assms] by blast
    have ne: "bg_failure env a ?t2 e \<noteq> []" by (simp add: bg_failure_def)
    have "bg_create env a t d =
        (if truthy (bg_conversationId a)
         then [(t, Call (AddConversationTranscriptToTicket ?td ?cid))] else []) @ bg_failure env a ?t2 e"
      using Inl by (simp add: bg_create_def Let_def)
    then show ?thesis using f ne
      by (auto simp: tracker_writes_append tracker_writes_Cons_Call tracker_writes_def)
  next
    case (Inr td')
    show ?thesis
    proof (cases "snd (createFreshdeskTicket env td')")
      case (Inl e)
      let ?t2 = "if truthy (bg_conversationId a)
                 then t + fst (addConversationTranscriptToTicket env ?td ?cid) else t"
      let ?t3 = "?t2 + fst (createFreshdeskTicket env td')"
      obtain t' where f: "tracker_writes (bg_failure env a ?t3 e) = [(bg_email a, Failed (error_text e) t')]"
          "last (bg_failure env a ?t3 e) = (t', TrackerSet (bg_email a) (Failed (error_text e) t'))"
        using bg_failure_writes [OF assms] by blast
      have ne: "bg_failure env a ?t3 e \<noteq> []" by (simp add: bg_failure_def)
      have "bg_create env a t d =
          (if truthy (bg_conversationId a)
           then [(t, Call (AddConversationTranscriptToTicket ?td ?cid))] else []) @
          [(?t2, Call (CreateFreshdeskTicket td'))] @ bg_failure env a ?t3 e"
        using Inl Inr by (simp add: bg_create_def Let_def)
      then show ?thesis using f ne
        by (auto simp: tracker_writes_append tracker_writes_Cons_Call tracker_writes_def)
    next
      case ok: (Inr ticketId)
      show ?thesis
        using Inr ok assms by (simp add: bg_create_def Let_def tracker_writes_def)
    qed
  qed
qed

lemma bg_task_terminal:
  assumes "bg_email a \<noteq> []"
  shows "\<exists>t' entry. tracker_writes (bg_task env a t) = [(bg_email a, entry)] \<and>
           \<not> inProgress entry \<and> last (bg_task env a t) = (t', TrackerSet (bg_email a) entry)"
proof -
  obtain t1 d es where tr: "bg_transcript env a t = (t1, d, es)"
    by (cases "bg_transcript env a t") auto
  have q: "\<forall>x \<in> set es. (\<exists>c. snd x = Call c) \<or> (\<exists>s. snd x = ConsoleError s)"
    using bg_transcript_effects [of _ env a t] tr by simp
  obtain t' entry where c: "tracker_writes (bg_create env a t1 d) = [(bg_email a, entry)]"
      "\<not> inProgress entry" "last (bg_create env a t1 d) = (t', TrackerSet (bg_email a) entry)"
    using bg_create_terminal [OF assms] by blast
  have ne: "bg_create env a t1 d \<noteq> []" using c(1) by (auto simp: tracker_writes_def)
  have eq: "bg_task env a t = es @ bg_create env a t1 d"
    by (simp add: bg_task_def tr)
  show ?thesis
    unfolding eq using c ne tracker_writes_quiet [OF q]
    by (auto simp: tracker_writes_append)
qed

section \<open>Proofs: accepted submissions\<close>

lemma not_blank_trim: "\<not> is_blank v \<Longrightarrow> js_trim (or_empty v) \<noteq> []"
  by (simp add: is_blank_def)

lemma tracker_writes_Cons:
  "tracker_writes ((t, e) # es) =
     (case e of TrackerSet k v \<Rightarrow> [(k, v)] | _ \<Rightarrow> []) @ tracker_writes es"
  by (simp add: tracker_writes_def)

lemma final_tracker_writes:
  "\<forall>x \<in> set trace. \<forall>k. snd x \<noteq> TrackerDelete k \<Longrightarrow>
   ticketTracker (final_state st trace)
     = foldl (\<lambda>m kv. m(fst kv \<mapsto> snd kv)) (ticketTracker st) (tracker_writes trace)"
proof (induction trace arbitrary: st)
  case Nil
  show ?case by (simp add: final_state_def tracker_writes_def)
next
  case (Cons x trace)
  obtain t e where x: "x = (t, e)" by (cases x)
  have p: "\<forall>x \<in> set trace. \<forall>k. snd x \<noteq> TrackerDelete k" using Cons.prems by simp
  note ih = Cons.IH [OF p, of "apply_effect st e"]
  have nd: "\<forall>k. e \<noteq> TrackerDelete k" using Cons.prems x by simp
  show ?case
  proof (cases "\<exists>k v. e = TrackerSet k v")
    case True
    then obtain k v where e: "e = TrackerSet k v" by blast
    have "ticketTracker (apply_effect st e) = (ticketTracker st)(k \<mapsto> v)"
      by (simp add: e)
    moreover have "tracker_writes (x # trace) = (k, v) # tracker_writes trace"
      by (simp add: x e tracker_writes_Cons)
    ultimately show ?thesis
      unfolding x final_state_Cons snd_conv using ih
      by (simp only: foldl_Cons fst_conv snd_conv)
  next
    case False
    then have same: "ticketTracker (apply_effect st e) = ticketTracker st"
      using nd by (cases e) simp_all
    have "tracker_writes (x # trace) = tracker_writes trace"
      using False by (cases e) (simp_all add: x tracker_writes_Cons)
    then show ?thesis
      unfolding x final_state_Cons snd_conv using ih same by simp
  qed
qed

text \<open>
  The trace of a submission that passes the checks and whose recent tickets are fetched
  before the deadline: the tracker entry, the response through \<open>sendResponse\<close>, and the
  background task.
\<close>

lemma submit_accepted_trace:
  assumes "component_id b = Some ''submit_ticket_button''"
    and "\<not> is_blank (iv_email (input_values b))"
    and "\<not> is_blank (iv_subject (input_values b))"
    and "bg_description (submitted b (submit_context b)) \<noteq> []"
    and "bg_product_id (submitted b (submit_context b)) \<noteq> []"
    and "fst (get_recent_tickets env (bg_email (submitted b (submit_context b)))) < deadline"
  shows "submit_trace env b =
     [(0, ContextSet (submit_context b)),
      (0, Call (AxiosGetRecentTickets (bg_email (submitted b (submit_context b))))),
      (fst (get_recent_tickets env (bg_email (submitted b (submit_context b)))),
         TrackerSet (bg_email (submitted b (submit_context b)))
           (InProgress (fst (get_recent_tickets env (bg_email (submitted b (submit_context b))))))),
      (fst (get_recent_tickets env (bg_email (submitted b (submit_context b)))), ClearTimeout),
      (fst (get_recent_tickets env (bg_email (submitted b (submit_context b)))),
         ResJson (Json 200 (CanvasBody (home_view env ''Create a Freshdesk Ticket''
           (case snd (get_recent_tickets env (bg_email (submitted b (submit_context b)))) of
              Inl e \<Rightarrow> [] | Inr tickets \<Rightarrow> tickets)))))] @
     bg_task env (submitted b (submit_context b))
       (fst (get_recent_tickets env (bg_email (submitted b (submit_context b)))))"
proof -
  let ?ctx = "submit_context b"
  let ?a = "submitted b ?ctx"
  let ?email = "bg_email ?a"
  let ?t = "fst (get_recent_tickets env ?email)"
  let ?r = "Json 200 (CanvasBody (home_view env ''Create a Freshdesk Ticket''
           (case snd (get_recent_tickets env ?email) of Inl e \<Rightarrow> [] | Inr tickets \<Rightarrow> tickets)))"
  have em: "?email \<noteq> []" using not_blank_trim [OF assms(2)] by (simp add: submitted_def)
  have su: "bg_subject ?a \<noteq> []" using not_blank_trim [OF assms(3)] by (simp add: submitted_def)
  have acts: "submit_actions env b ?ctx =
      effs [(0, Call (AxiosGetRecentTickets ?email)), (?t, TrackerSet ?email (InProgress ?t))] @
      (?t, SendResponse ?r) # effs (bg_task env ?a ?t)"
    using assms(1,2,3,4,5) em su
    by (simp add: submit_actions_def submit_ticket_actions_def Let_def effs_Cons effs_Nil)
  have pre: "\<forall>x \<in> set [(0, Call (AxiosGetRecentTickets ?email)), (?t, TrackerSet ?email (InProgress ?t))].
      fst x < deadline"
    using assms(6) by (simp add: deadline_def)
  show ?thesis
    unfolding submit_trace_def acts race_sent_early [OF pre assms(6)] by simp
qed

text \<open>
  Claim C3, as amended.  A submission of the ticket form with an email and a subject
  that are not empty after trimming, a description (its own or the body of the
  conversation) and a mailbox, whose recent tickets are fetched before the deadline of
  9 seconds: the handler writes one in-progress entry under the submitted email before it
  sends its response; the background task, every call of which is taken to answer, then
  writes one terminal entry (completed or failed) under the same email as its last
  effect.  These are the only writes to the tracker, so the entry of that email ends
  terminal and no other entry changes.
\<close>

theorem accepted_submission_tracker_lifecycle:
  assumes "component_id b = Some ''submit_ticket_button''"
    and "\<not> is_blank (iv_email (input_values b))"
    and "\<not> is_blank (iv_subject (input_values b))"
    and "bg_description (submitted b (submit_context b)) \<noteq> []"
    and "bg_product_id (submitted b (submit_context b)) \<noteq> []"
    and "fst (get_recent_tickets env (bg_email (submitted b (submit_context b)))) < deadline"
  shows "\<exists>view bg t' entry.
     submit_trace env b =
       [(0, ContextSet (submit_context b)),
        (0, Call (AxiosGetRecentTickets (bg_email (submitted b (submit_context b))))),
        (fst (get_recent_tickets env (bg_email (submitted b (submit_context b)))),
           TrackerSet (bg_email (submitted b (submit_context b)))
             (InProgress (fst (get_recent_tickets env (bg_email (submitted b (submit_context b))))))),
        (fst (get_recent_tickets env (bg_email (submitted b (submit_context b)))), ClearTimeout),
        (fst (get_recent_tickets env (bg_email (submitted b (submit_context b)))),
           ResJson (Json 200 (CanvasBody view)))] @ bg \<and>
     responses bg = [] \<and>
     tracker_writes bg = [(bg_email (submitted b (submit_context b)), entry)] \<and>
     last bg = (t', TrackerSet (bg_email (submitted b (submit_context b))) entry) \<and>
     \<not> inProgress entry \<and>
     tracker_writes (submit_trace env b) =
       [(bg_email (submitted b (submit_context b)),
           InProgress (fst (get_recent_tickets env (bg_email (submitted b (submit_context b)))))),
        (bg_email (submitted b (submit_context b)), entry)] \<and>
     ticketTracker (final_state st (submit_trace env b)) =
       (ticketTracker st)(bg_email (submitted b (submit_context b)) \<mapsto> entry)"
proof -
  let ?a = "submitted b (submit_context b)"
  let ?email = "bg_email ?a"
  let ?t = "fst (get_recent_tickets env ?email)"
  let ?bg = "bg_task env ?a ?t"
  have em: "?email \<noteq> []" using not_blank_trim [OF assms(2)] by (simp add: submitted_def)
  note tr = submit_accepted_trace [OF assms]
  obtain t' entry where bg: "tracker_writes ?bg = [(?email, entry)]" "\<not> inProgress entry"
      "last ?bg = (t', TrackerSet ?email entry)"
    using bg_task_terminal [OF em] by blast
  have q: "\<forall>x \<in> set ?bg. (\<exists>c. snd x = Call c) \<or> (\<exists>s. snd x = ConsoleError s) \<or>
      (\<exists>k v. snd x = TrackerSet k v)"
    using bg_task_effects [of _ env ?a ?t] by blast
  have rs: "responses ?bg = []" using responses_quiet [OF q] .
  have ws: "tracker_writes (submit_trace env b) = [(?email, InProgress ?t), (?email, entry)]"
    unfolding tr using bg(1) by (simp add: tracker_writes_def)
  have nd: "\<forall>x \<in> set (submit_trace env b). \<forall>k. snd x \<noteq> TrackerDelete k"
    unfolding tr using q by auto
  have fin: "ticketTracker (final_state st (submit_trace env b)) = (ticketTracker st)(?email \<mapsto> entry)"
    unfolding final_tracker_writes [OF nd] ws by simp
  show ?thesis
    using tr rs bg ws fin by blast
qed

theorem accepted_submission_tracker_lifecycle_witness:
  "component_id ((bare_body ''submit_ticket_button'')
      \<lparr>input_values := form_values ''a@b.com'' ''Help'' (Some ''It broke'') (Some ''product_1'')\<rparr>)
     = Some ''submit_ticket_button'' \<and>
   bg_email (submitted ((bare_body ''submit_ticket_button'')
      \<lparr>input_values := form_values ''a@b.com'' ''Help'' (Some ''It broke'') (Some ''product_1'')\<rparr>)
      (submit_context ((bare_body ''submit_ticket_button'')
      \<lparr>input_values := form_values ''a@b.com'' ''Help'' (Some ''It broke'') (Some ''product_1'')\<rparr>)))
     = ''a@b.com'' \<and>
   fst (get_recent_tickets quiet_env ''a@b.com'') < deadline \<and>
   (\<exists>entry. tracker_writes (submit_trace quiet_env ((bare_body ''submit_ticket_button'')
        \<lparr>input_values := form_values ''a@b.com'' ''Help'' (Some ''It broke'') (Some ''product_1'')\<rparr>))
       = [(''a@b.com'', InProgress 5), (''a@b.com'', entry)] \<and> \<not> inProgress entry)"
proof -
  let ?b = "(bare_body ''submit_ticket_button'')
      \<lparr>input_values := form_values ''a@b.com'' ''Help'' (Some ''It broke'') (Some ''product_1'')\<rparr>"
  have c: "component_id ?b = Some ''submit_ticket_button''"
    by (simp add: bare_body_def)
  have e: "\<not> is_blank (iv_email (input_values ?b))"
    by (simp add: bare_body_def form_values_def is_blank_def truthy_def or_empty_def js_trim_def
        js_whitespace_def)
  have s: "\<not> is_blank (iv_subject (input_values ?b))"
    by (simp add: bare_body_def form_values_def is_blank_def truthy_def or_empty_def js_trim_def
        js_whitespace_def)
  have em: "bg_email (submitted ?b (submit_context ?b)) = ''a@b.com''"
    by (simp add: submitted_def bare_body_def form_values_def or_empty_def js_trim_def
        js_whitespace_def)
  have d: "bg_description (submitted ?b (submit_context ?b)) \<noteq> []"
    by (simp add: submitted_def submitted_description_def bare_body_def form_values_def
        truthy_def or_empty_def)
  have p: "bg_product_id (submitted ?b (submit_context ?b)) \<noteq> []"
    by code_simp
  have t: "fst (get_recent_tickets quiet_env ''a@b.com'') < deadline"
    by (simp add: quiet_env_def deadline_def)
  have t5: "fst (get_recent_tickets quiet_env ''a@b.com'') = 5"
    by (simp add: quiet_env_def)
  have t': "fst (get_recent_tickets quiet_env (bg_email (submitted ?b (submit_context ?b)))) < deadline"
    unfolding em by (rule t)
  from accepted_submission_tracker_lifecycle [OF c e s d p t', of empty_state]
  obtain entry where
    "tracker_writes (submit_trace quiet_env ?b) = [(''a@b.com'', InProgress 5), (''a@b.com'', entry)]"
    "\<not> inProgress entry"
    unfolding em t5 by blast
  then have x: "\<exists>entry. tracker_writes (submit_trace quiet_env ?b)
       = [(''a@b.com'', InProgress 5), (''a@b.com'', entry)] \<and> \<not> inProgress entry"
    by blast
  show ?thesis by (intro conjI c em t x)
qed

text \<open>
  The claim as stated fails.  A submission with a good email and subject but no mailbox
  is turned away by the third check and creates no entry.  And when the recent tickets
  take 9.5 seconds, the callback of the timer writes an in-progress entry under the email
  of the contact, which differs from the submitted one here; the background task ends
  the entry of the submitted email only, and the other one stays in progress.
\<close>

theorem valid_submission_without_lifecycle:
  "tracker_writes (submit_trace quiet_env ((bare_body ''submit_ticket_button'')
      \<lparr>input_values := form_values ''a@b.com'' ''Help'' (Some ''It broke'') None\<rparr>)) = [] \<and>
   responses (submit_trace quiet_env ((bare_body ''submit_ticket_button'')
      \<lparr>input_values := form_values ''a@b.com'' ''Help'' (Some ''It broke'') None\<rparr>))
     = [Json 200 (CanvasBody required_fields_view)] \<and>
   tracker_writes (submit_trace (quiet_env\<lparr>get_recent_tickets := (\<lambda>email. (9500, Inr []))\<rparr>)
      ((bare_body ''submit_ticket_button'')
         \<lparr>contact_email := Some ''c@d.com'',
          input_values := form_values ''a@b.com'' ''Help'' (Some ''It broke'') (Some ''product_1'')\<rparr>))
     = [(''c@d.com'', InProgress 9000), (''a@b.com'', InProgress 9500), (''a@b.com'', Completed 42 9505)]"
  by code_simp

section \<open>Proofs: the description of a submission\<close>

lemma submit_rejected_trace:
  assumes "component_id b = Some ''submit_ticket_button''"
    and "\<not> is_blank (iv_email (input_values b))"
    and "\<not> is_blank (iv_subject (input_values b))"
    and "bg_description (submitted b (submit_context b)) = [] \<or>
         bg_product_id (submitted b (submit_context b)) = []"
  shows "submit_trace env b =
     [(0, ContextSet (submit_context b)), (0, ClearTimeout),
      (0, ResJson (Json 200 (CanvasBody required_fields_view)))]"
proof -
  let ?a = "submitted b (submit_context b)"
  have em: "bg_email ?a \<noteq> []" using not_blank_trim [OF assms(2)] by (simp add: submitted_def)
  have su: "bg_subject ?a \<noteq> []" using not_blank_trim [OF assms(3)] by (simp add: submitted_def)
  have acts: "submit_actions env b (submit_context b) =
      effs [] @ (0, SendResponse (Json 200 (CanvasBody required_fields_view))) # effs []"
    using assms em su
    by (auto simp add: submit_actions_def submit_ticket_actions_def Let_def effs_Nil)
  have pre: "\<forall>x \<in> set ([] :: (nat \<times> effect) list). fst x < deadline" by simp
  have z: "0 < deadline" by (simp add: deadline_def)
  show ?thesis
    unfolding submit_trace_def acts race_sent_early [OF pre z] by simp
qed

text \<open>
  Claim C9, as amended.  For a submission of the ticket form whose email and subject are
  not empty after trimming, the description is the one of the form or, when that is
  absent or empty, the body of the conversation's first message.  When that is absent or
  empty as well, the submission is turned away with the view \<open>Please fill in all required
  fields\<close>: no tracker entry, no outbound call.  When the body of the conversation is
  there (and a mailbox is given and the recent tickets arrive before the deadline), the
  submission is accepted and the background task runs with that body as description.
\<close>

theorem description_defaults_to_conversation_body:
  assumes "component_id b = Some ''submit_ticket_button''"
    and "\<not> is_blank (iv_email (input_values b))"
    and "\<not> is_blank (iv_subject (input_values b))"
    and "\<not> truthy (iv_description (input_values b))"
  shows "bg_description (submitted b (submit_context b)) = or_empty (source_body b) \<and>
     (\<not> truthy (source_body b) \<longrightarrow>
        responses (submit_trace env b) = [Json 200 (CanvasBody required_fields_view)] \<and>
        tracker_writes (submit_trace env b) = [] \<and>
        outbound_calls (submit_trace env b) = []) \<and>
     (truthy (source_body b) \<and> bg_product_id (submitted b (submit_context b)) \<noteq> [] \<and>
      fst (get_recent_tickets env (bg_email (submitted b (submit_context b)))) < deadline \<longrightarrow>
        (\<exists>view. responses (submit_trace env b) = [Json 200 (CanvasBody view)] \<and>
           view = home_view env ''Create a Freshdesk Ticket''
             (case snd (get_recent_tickets env (bg_email (submitted b (submit_context b)))) of
                Inl e \<Rightarrow> [] | Inr tickets \<Rightarrow> tickets)) \<and>
        (\<exists>pre. submit_trace env b = pre @
           bg_task env ((submitted b (submit_context b))\<lparr>bg_description := or_empty (source_body b)\<rparr>)
             (fst (get_recent_tickets env (bg_email (submitted b (submit_context b)))))))"
proof -
  let ?a = "submitted b (submit_context b)"
  let ?t = "fst (get_recent_tickets env (bg_email ?a))"
  have d: "bg_description ?a = or_empty (source_body b)"
    using assms(4) by (simp add: submitted_def submitted_description_def submit_context_def)
  have rej: "responses (submit_trace env b) = [Json 200 (CanvasBody required_fields_view)] \<and>
        tracker_writes (submit_trace env b) = [] \<and> outbound_calls (submit_trace env b) = []"
    if "\<not> truthy (source_body b)"
  proof -
    have "bg_description ?a = []"
      using that d by (simp add: truthy_def or_empty_def split: option.splits)
    then have "submit_trace env b =
       [(0, ContextSet (submit_context b)), (0, ClearTimeout),
        (0, ResJson (Json 200 (CanvasBody required_fields_view)))]"
      using submit_rejected_trace [OF assms(1,2,3)] by simp
    then show ?thesis
      by (simp add: responses_def tracker_writes_def outbound_calls_def)
  qed
  have acc: "(\<exists>view. responses (submit_trace env b) = [Json 200 (CanvasBody view)] \<and>
           view = home_view env ''Create a Freshdesk Ticket''
             (case snd (get_recent_tickets env (bg_email ?a)) of Inl e \<Rightarrow> [] | Inr tickets \<Rightarrow> tickets)) \<and>
        (\<exists>pre. submit_trace env b = pre @ bg_task env (?a\<lparr>bg_description := or_empty (source_body b)\<rparr>) ?t)"
    if h: "truthy (source_body b)" "bg_product_id ?a \<noteq> []" "?t < deadline"
  proof -
    have ne: "bg_description ?a \<noteq> []"
      using h(1) d by (simp add: truthy_def or_empty_def split: option.splits)
    note tr = submit_accepted_trace [OF assms(1,2,3) ne h(2,3)]
    have same: "?a\<lparr>bg_description := or_empty (source_body b)\<rparr> = ?a"
      using d by simp
    have q: "\<forall>x \<in> set (bg_task env ?a ?t). (\<exists>c. snd x = Call c) \<or> (\<exists>s. snd x = ConsoleError s) \<or>
        (\<exists>k v. snd x = TrackerSet k v)"
      using bg_task_effects [of _ env ?a ?t] by blast
    have r: "responses (submit_trace env b) = [Json 200 (CanvasBody (home_view env ''Create a Freshdesk Ticket''
             (case snd (get_recent_tickets env (bg_email ?a)) of Inl e \<Rightarrow> [] | Inr tickets \<Rightarrow> tickets)))]"
      unfolding tr responses_append using responses_quiet [OF q] by (simp add: responses_def)
    show ?thesis
      unfolding same using r tr by blast
  qed
  show ?thesis using d rej acc by blast
qed

theorem description_defaults_to_conversation_body_witness:
  "component_id ((bare_body ''submit_ticket_button'')
      \<lparr>source_body := Some ''My printer is on fire'',
       input_values := form_values ''a@b.com'' ''Help'' None (Some ''product_1'')\<rparr>)
     = Some ''submit_ticket_button'' \<and>
   \<not> truthy (iv_description (input_values ((bare_body ''submit_ticket_button'')
      \<lparr>source_body := Some ''My printer is on fire'',
       input_values := form_values ''a@b.com'' ''Help'' None (Some ''product_1'')\<rparr>))) \<and>
   bg_description (submitted ((bare_body ''submit_ticket_button'')
      \<lparr>source_body := Some ''My printer is on fire'',
       input_values := form_values ''a@b.com'' ''Help'' None (Some ''product_1'')\<rparr>)
      (submit_context ((bare_body ''submit_ticket_button'')
      \<lparr>source_body := Some ''My printer is on fire'',
       input_values := form_values ''a@b.com'' ''Help'' None (Some ''product_1'')\<rparr>)))
     = ''My printer is on fire'' \<and>
   map td_description (concat (map (\<lambda>c. case c of CreateFreshdeskTicket td \<Rightarrow> [td] | _ \<Rightarrow> [])
      (outbound_calls (submit_trace quiet_env ((bare_body ''submit_ticket_button'')
      \<lparr>source_body := Some ''My printer is on fire'',
       input_values := form_values ''a@b.com'' ''Help'' None (Some ''product_1'')\<rparr>)))))
     = [''My printer is on fire'']"
proof -
  let ?b = "(bare_body ''submit_ticket_button'')
      \<lparr>source_body := Some ''My printer is on fire'',
       input_values := form_values ''a@b.com'' ''Help'' None (Some ''product_1'')\<rparr>"
  have c: "component_id ?b = Some ''submit_ticket_button''"
    by (simp add: bare_body_def)
  have e: "\<not> is_blank (iv_email (input_values ?b))"
    by (simp add: bare_body_def form_values_def is_blank_def truthy_def or_empty_def js_trim_def
        js_whitespace_def)
  have s: "\<not> is_blank (iv_subject (input_values ?b))"
    by (simp add: bare_body_def form_values_def is_blank_def truthy_def or_empty_def js_trim_def
        js_whitespace_def)
  have n: "\<not> truthy (iv_description (input_values ?b))"
    by (simp add: bare_body_def form_values_def truthy_def)
  have sb: "or_empty (source_body ?b) = ''My printer is on fire''"
    by (simp add: bare_body_def or_empty_def)
  have d: "bg_description (submitted ?b (submit_context ?b)) = ''My printer is on fire''"
    using description_defaults_to_conversation_body [OF c e s n, of quiet_env]
    unfolding sb by (rule conjunct1)
  have k: "map td_description (concat (map (\<lambda>c. case c of CreateFreshdeskTicket td \<Rightarrow> [td] | _ \<Rightarrow> [])
      (outbound_calls (submit_trace quiet_env ?b)))) = [''My printer is on fire'']"
    by code_simp
  show ?thesis by (intro conjI c n d k)
qed

text \<open>
  The claim as stated fails: with no description in the form and none in the
  conversation the submission is turned away, although email, subject and mailbox are
  given.
\<close>

theorem missing_description_is_rejected:
  "responses (submit_trace quiet_env ((bare_body ''submit_ticket_button'')
      \<lparr>input_values := form_values ''a@b.com'' ''Help'' None (Some ''product_1'')\<rparr>))
     = [Json 200 (CanvasBody required_fields_view)] \<and>
   tracker_writes (submit_trace quiet_env ((bare_body ''submit_ticket_button'')
      \<lparr>input_values := form_values ''a@b.com'' ''Help'' None (Some ''product_1'')\<rparr>)) = [] \<and>
   outbound_calls (submit_trace quiet_env ((bare_body ''submit_ticket_button'')
      \<lparr>input_values := form_values ''a@b.com'' ''Help'' None (Some ''product_1'')\<rparr>)) = []"
  by code_simp

section \<open>Proofs: the order of the background task\<close>

lemma steps_append: "steps (xs @ ys) = steps xs @ steps ys"
  by (simp add: steps_def)

lemma steps_Cons: "steps ((t, e) # es) = (if is_log e then [] else [e]) @ steps es"
  by (simp add: steps_def)

lemma steps_Nil: "steps [] = []"
  by (simp add: steps_def)

lemma steps_bg_transcript:
  "truthy (bg_conversationId a) \<Longrightarrow>
   steps (snd (snd (bg_transcript env a t))) = [Call (FetchIntercomConversation (or_empty (bg_conversationId a)))]"
  by (simp add: bg_transcript_def Let_def steps_Cons steps_Nil split: sum.splits)

lemma bg_transcript_none:
  "\<not> truthy (bg_conversationId a) \<Longrightarrow> bg_transcript env a t = (t, bg_description a, [])"
  by (simp add: bg_transcript_def)

lemma steps_bg_failure:
  "bg_email a \<noteq> [] \<Longrightarrow>
   \<exists>t'. steps (bg_failure env a t e) =
     (if truthy (bg_conversationId a)
      then [Call (PostIntercomNote (or_empty (bg_conversationId a)) (failure_note e))] else []) @
     [TrackerSet (bg_email a) (Failed (error_text e) t')]"
  by (simp add: bg_failure_def Let_def steps_Cons steps_Nil steps_append)

lemma steps_bg_create:
  assumes "bg_email a \<noteq> []"
  shows "case (if truthy (bg_conversationId a)
               then snd (addConversationTranscriptToTicket env (build_ticket_data a d) (or_empty (bg_conversationId a)))
               else Inr (build_ticket_data a d)) of
      Inl e \<Rightarrow> \<exists>t'. steps (bg_create env a t d) =
         (if truthy (bg_conversationId a)
          then [Call (AddConversationTranscriptToTicket (build_ticket_data a d) (or_empty (bg_conversationId a)))]
          else []) @
         (if truthy (bg_conversationId a)
          then [Call (PostIntercomNote (or_empty (bg_conversationId a)) (failure_note e))] else []) @
         [TrackerSet (bg_email a) (Failed (error_text e) t')]
    | Inr td' \<Rightarrow>
       (case snd (createFreshdeskTicket env td') of
          Inl e \<Rightarrow> \<exists>t'. steps (bg_create env a t d) =
             (if truthy (bg_conversationId a)
              then [Call (AddConversationTranscriptToTicket (build_ticket_data a d) (or_empty (bg_conversationId a)))]
              else []) @
             [Call (CreateFreshdeskTicket td')] @
             (if truthy (bg_conversationId a)
              then [Call (PostIntercomNote (or_empty (bg_conversationId a)) (failure_note e))] else []) @
             [TrackerSet (bg_email a) (Failed (error_text e) t')]
        | Inr ticketId \<Rightarrow> \<exists>t'. steps (bg_create env a t d) =
             (if truthy (bg_conversationId a)
              then [Call (AddConversationTranscriptToTicket (build_ticket_data a d) (or_empty (bg_conversationId a)))]
              else []) @
             [Call (CreateFreshdeskTicket td')] @
             (if truthy (bg_conversationId a)
              then [Call (PostIntercomNote (or_empty (bg_conversationId a)) (success_note env ticketId))] else []) @
             [TrackerSet (bg_email a) (Completed ticketId t')])"
proof -
  let ?td = "build_ticket_data a d"
  let ?cid = "or_empty (bg_conversationId a)"
  let ?add = "if truthy (bg_conversationId a) then snd (addConversationTranscriptToTicket env ?td ?cid)
              else Inr ?td"
  let ?t2 = "if truthy (bg_conversationId a)
             then t + fst (addConversationTranscriptToTicket env ?td ?cid) else t"
  show ?thesis
  proof (cases ?add)
    case (Inl e)
    obtain t' where f: "steps (bg_failure env a ?t2 e) =
       (if truthy (bg_conversationId a) then [Call (PostIntercomNote ?cid (failure_note e))] else []) @
       [TrackerSet (bg_email a) (Failed (error_text e) t')]"
      using steps_bg_failure [OF assms] by blast
    have "bg_create env a t d =
        (if truthy (bg_conversationId a)
         then [(t, Call (AddConversationTranscriptToTicket ?td ?cid))] else []) @ bg_failure env a ?t2 e"
      using Inl by (simp add: bg_create_def Let_def)
    then have "steps (bg_create env a t d) =
        (if truthy (bg_conversationId a) then [Call (AddConversationTranscriptToTicket ?td ?cid)] else []) @
        (if truthy (bg_conversationId a) then [Call (PostIntercomNote ?cid (failure_note e))] else []) @
        [TrackerSet (bg_email a) (Failed (error_text e) t')]"
      using f by (simp add: steps_append steps_Cons steps_Nil)
    then have "\<exists>t'. steps (bg_create env a t d) =
        (if truthy (bg_conversationId a) then [Call (AddConversationTranscriptToTicket ?td ?cid)] else []) @
        (if truthy (bg_conversationId a) then [Call (PostIntercomNote ?cid (failure_note e))] else []) @
        [TrackerSet (bg_email a) (Failed (error_text e) t')]" by blast
    then show ?thesis by (simp only: Inl sum.case)
  next
    case (Inr td')
    let ?t3 = "?t2 + fst (createFreshdeskTicket env td')"
    show ?thesis
    proof (cases "snd (createFreshdeskTicket env td')")
      case (Inl e)
      obtain t' where f: "steps (bg_failure env a ?t3 e) =
         (if truthy (bg_conversationId a) then [Call (PostIntercomNote ?cid (failure_note e))] else []) @
         [TrackerSet (bg_email a) (Failed (error_text e) t')]"
        using steps_bg_failure [OF assms] by blast
      have "bg_create env a t d =
          (if truthy (bg_conversationId a)
           then [(t, Call (AddConversationTranscriptToTicket ?td ?cid))] else []) @
          [(?t2, Call (CreateFreshdeskTicket td'))] @ bg_failure env a ?t3 e"
        using Inl Inr by (simp add: bg_create_def Let_def)
      then have "steps (bg_create env a t d) =
          (if truthy (bg_conversationId a) then [Call (AddConversationTranscriptToTicket ?td ?cid)] else []) @
          [Call (CreateFreshdeskTicket td')] @
          (if truthy (bg_conversationId a) then [Call (PostIntercomNote ?cid (failure_note e))] else []) @
          [TrackerSet (bg_email a) (Failed (error_text e) t')]"
        using f by (simp add: steps_append steps_Cons steps_Nil)
      then have "\<exists>t'. steps (bg_create env a t d) =
          (if truthy (bg_conversationId a) then [Call (AddConversationTranscriptToTicket ?td ?cid)] else []) @
          [Call (CreateFreshdeskTicket td')] @
          (if truthy (bg_conversationId a) then [Call (PostIntercomNote ?cid (failure_note e))] else []) @
          [TrackerSet (bg_email a) (Failed (error_text e) t')]" by blast
      then show ?thesis by (simp only: Inr Inl sum.case)
    next
      case ok: (Inr ticketId)
      have "\<exists>t'. steps (bg_create env a t d) =
          (if truthy (bg_conversationId a) then [Call (AddConversationTranscriptToTicket ?td ?cid)] else []) @
          [Call (CreateFreshdeskTicket td')] @
          (if truthy (bg_conversationId a) then [Call (PostIntercomNote ?cid (success_note env ticketId))] else []) @
          [TrackerSet (bg_email a) (Completed ticketId t')]"
        using Inr ok assms by (simp add: bg_create_def Let_def steps_append steps_Cons steps_Nil)
      then show ?thesis by (simp only: Inr ok sum.case)
    qed
  qed
qed

lemma steps_bg_task:
  "steps (bg_task env a t) =
     (if truthy (bg_conversationId a)
      then [Call (FetchIntercomConversation (or_empty (bg_conversationId a)))] else []) @
     steps (bg_create env a (fst (bg_transcript env a t)) (fst (snd (bg_transcript env a t))))"
proof (cases "truthy (bg_conversationId a)")
  case True
  obtain t1 d es where tr: "bg_transcript env a t = (t1, d, es)"
    by (cases "bg_transcript env a t") auto
  have "steps es = [Call (FetchIntercomConversation (or_empty (bg_conversationId a)))]"
    using steps_bg_transcript [OF True, of env t] tr by simp
  then show ?thesis using True by (simp add: bg_task_def tr steps_append)
next
  case False
  then show ?thesis by (simp add: bg_task_def bg_transcript_none steps_Nil)
qed

lemma sublist_success_note:
  "sublist (ticket_url env ticketId) (success_note env ticketId)"
  "sublist (string_of_nat ticketId) (success_note env ticketId)"
proof -
  show "sublist (ticket_url env ticketId) (success_note env ticketId)"
    unfolding success_note_def by (intro suffix_imp_sublist) (simp add: suffix_def)
  show "sublist (string_of_nat ticketId) (success_note env ticketId)"
    unfolding success_note_def ticket_url_def by (intro suffix_imp_sublist) (simp add: suffix_def)
qed

lemma sublist_failure_note: "sublist (error_text e) (failure_note e)"
  unfolding failure_note_def by (intro suffix_imp_sublist) (simp add: suffix_def)

text \<open>The steps of the task, by the outcome of its calls.\<close>

lemma bg_task_steps:
  assumes "bg_email a \<noteq> []"
  shows "case (if truthy (bg_conversationId a)
              then snd (addConversationTranscriptToTicket env (build_ticket_data a (fst (snd (bg_transcript env a t))))
                     (or_empty (bg_conversationId a)))
              else Inr (build_ticket_data a (fst (snd (bg_transcript env a t))))) of
       Inl e \<Rightarrow> \<exists>t'. steps (bg_task env a t) =
          (if truthy (bg_conversationId a)
           then [Call (FetchIntercomConversation (or_empty (bg_conversationId a))), Call (AddConversationTranscriptToTicket (build_ticket_data a (fst (snd (bg_transcript env a t)))) (or_empty (bg_conversationId a)))]
           else []) @
          (if truthy (bg_conversationId a) then [Call (PostIntercomNote (or_empty (bg_conversationId a)) (failure_note e))] else []) @
          [TrackerSet (bg_email a) (Failed (error_text e) t')]
     | Inr td' \<Rightarrow>
        (case snd (createFreshdeskTicket env td') of
           Inl e \<Rightarrow> \<exists>t'. steps (bg_task env a t) =
              (if truthy (bg_conversationId a)
               then [Call (FetchIntercomConversation (or_empty (bg_conversationId a))), Call (AddConversationTranscriptToTicket (build_ticket_data a (fst (snd (bg_transcript env a t)))) (or_empty (bg_conversationId a)))]
               else []) @ [Call (CreateFreshdeskTicket td')] @
              (if truthy (bg_conversationId a) then [Call (PostIntercomNote (or_empty (bg_conversationId a)) (failure_note e))] else []) @
              [TrackerSet (bg_email a) (Failed (error_text e) t')]
         | Inr ticketId \<Rightarrow> \<exists>t'. steps (bg_task env a t) =
              (if truthy (bg_conversationId a)
               then [Call (FetchIntercomConversation (or_empty (bg_conversationId a))), Call (AddConversationTranscriptToTicket (build_ticket_data a (fst (snd (bg_transcript env a t)))) (or_empty (bg_conversationId a)))]
               else []) @ [Call (CreateFreshdeskTicket td')] @
              (if truthy (bg_conversationId a)
               then [Call (PostIntercomNote (or_empty (bg_conversationId a)) (success_note env ticketId))] else []) @
              [TrackerSet (bg_email a) (Completed ticketId t')])"
proof -
  let ?cid = "or_empty (bg_conversationId a)"
  let ?t1 = "fst (bg_transcript env a t)"
  let ?d = "fst (snd (bg_transcript env a t))"
  let ?td = "build_ticket_data a ?d"
  let ?add = "if truthy (bg_conversationId a)
              then snd (addConversationTranscriptToTicket env ?td ?cid) else Inr ?td"
  note c = steps_bg_create [OF assms, where env = env and d = "?d" and t = "?t1"]
  show ?thesis
  proof (cases ?add)
    case (Inl e)
    from c show ?thesis
      unfolding steps_bg_task [of env a t] by (simp only: Inl sum.case) auto
  next
    case (Inr td')
    show ?thesis
    proof (cases "snd (createFreshdeskTicket env td')")
      case (Inl e)
      from c show ?thesis
        unfolding steps_bg_task [of env a t] by (simp only: Inr Inl sum.case) auto
    next
      case ok: (Inr ticketId)
      from c show ?thesis
        unfolding steps_bg_task [of env a t] by (simp only: Inr ok sum.case) auto
    qed
  qed
qed

text \<open>
  Claim C8, as amended.  The steps of the background task of a submission, in order,
  with \<open>td\<close> the payload built after the transcript step: with a conversation identifier
  the conversation is fetched and \<open>addConversationTranscriptToTicket\<close> is called, then the
  ticket is created, then the note is posted (with a conversation identifier only), and
  the tracker is written last.  When the ticket is created the note is the success note,
  which contains the URL of the ticket with its id, and the entry is completed.  When
  \<open>addConversationTranscriptToTicket\<close> or \<open>createFreshdeskTicket\<close> fails the note is the
  failure note, which contains the text of the error, and the entry is failed.
\<close>

theorem background_task_order:
  assumes "bg_email a \<noteq> []"
  shows "(let cid = or_empty (bg_conversationId a);
              td = build_ticket_data a (fst (snd (bg_transcript env a t)));
              transcript = (if truthy (bg_conversationId a)
                 then [Call (FetchIntercomConversation cid), Call (AddConversationTranscriptToTicket td cid)]
                 else [])
          in case (if truthy (bg_conversationId a)
                   then snd (addConversationTranscriptToTicket env td cid) else Inr td) of
               Inl e \<Rightarrow> \<exists>t'. steps (bg_task env a t) =
                  transcript @
                  (if truthy (bg_conversationId a) then [Call (PostIntercomNote cid (failure_note e))] else []) @
                  [TrackerSet (bg_email a) (Failed (error_text e) t')]
             | Inr td' \<Rightarrow>
                (case snd (createFreshdeskTicket env td') of
                   Inl e \<Rightarrow> \<exists>t'. steps (bg_task env a t) =
                      transcript @ [Call (CreateFreshdeskTicket td')] @
                      (if truthy (bg_conversationId a) then [Call (PostIntercomNote cid (failure_note e))] else []) @
                      [TrackerSet (bg_email a) (Failed (error_text e) t')]
                 | Inr ticketId \<Rightarrow> \<exists>t'. steps (bg_task env a t) =
                      transcript @ [Call (CreateFreshdeskTicket td')] @
                      (if truthy (bg_conversationId a)
                       then [Call (PostIntercomNote cid (success_note env ticketId))] else []) @
                      [TrackerSet (bg_email a) (Completed ticketId t')])) \<and>
         (\<forall>ticketId. sublist (ticket_url env ticketId) (success_note env ticketId) \<and>
                     sublist (string_of_nat ticketId) (ticket_url env ticketId)) \<and>
         (\<forall>e. sublist (error_text e) (failure_note e))"
proof -
  have u: "sublist (string_of_nat ticketId) (ticket_url env ticketId)" for ticketId
    unfolding ticket_url_def by (intro suffix_imp_sublist) (simp add: suffix_def)
  show ?thesis
    unfolding Let_def
    by (intro conjI allI bg_task_steps [OF assms] sublist_success_note(1) u sublist_failure_note)
qed

theorem background_task_order_witness:
  "bg_email (example_args (Some ''77'')) \<noteq> [] \<and>
   (\<exists>t'. steps (bg_task quiet_env (example_args (Some ''77'')) 0) =
      [Call (FetchIntercomConversation ''77''),
       Call (AddConversationTranscriptToTicket
          (build_ticket_data (example_args (Some ''77''))
             (''It broke'' @ [CHR 0x0A, CHR 0x0A] @ ''<p>Hi</p>'')) ''77''),
       Call (CreateFreshdeskTicket
          (build_ticket_data (example_args (Some ''77''))
             (''It broke'' @ [CHR 0x0A, CHR 0x0A] @ ''<p>Hi</p>''))),
       Call (PostIntercomNote ''77'' (success_note quiet_env 42)),
       TrackerSet ''a@b.com'' (Completed 42 t')])"
proof -
  let ?a = "example_args (Some ''77'')"
  have e: "bg_email ?a \<noteq> []" by (simp add: example_args_def)
  have em: "bg_email ?a = ''a@b.com''" by (simp add: example_args_def)
  have tc: "truthy (bg_conversationId ?a)" "or_empty (bg_conversationId ?a) = ''77''"
    by (simp_all add: example_args_def truthy_def or_empty_def)
  have d: "fst (snd (bg_transcript quiet_env ?a 0)) = ''It broke'' @ [CHR 0x0A, CHR 0x0A] @ ''<p>Hi</p>''"
    by (simp add: bg_transcript_def Let_def truthy_def or_empty_def quiet_env_def example_args_def)
  have add: "snd (addConversationTranscriptToTicket quiet_env td ''77'') = Inr td" for td
    by (simp add: quiet_env_def)
  have cr: "snd (createFreshdeskTicket quiet_env td) = Inr 42" for td
    by (simp add: quiet_env_def)
  have "\<exists>t'. steps (bg_task quiet_env ?a 0) =
      [Call (FetchIntercomConversation ''77''),
       Call (AddConversationTranscriptToTicket
          (build_ticket_data ?a (''It broke'' @ [CHR 0x0A, CHR 0x0A] @ ''<p>Hi</p>'')) ''77''),
       Call (CreateFreshdeskTicket
          (build_ticket_data ?a (''It broke'' @ [CHR 0x0A, CHR 0x0A] @ ''<p>Hi</p>''))),
       Call (PostIntercomNote ''77'' (success_note quiet_env 42)),
       TrackerSet ''a@b.com'' (Completed 42 t')]"
    using background_task_order [OF e, of quiet_env 0, THEN conjunct1]
    unfolding Let_def d by (simp only: tc if_True add cr sum.case em append.simps)
  then show ?thesis using e by blast
qed

text \<open>
  The claim as stated fails.  Without a conversation identifier the ticket is created
  and no note is posted.  And when fetching the conversation fails, a step has failed,
  but no failure note is posted and the entry is not marked failed: the task goes on and
  the ticket is created.
\<close>

theorem background_task_without_note:
  "steps (bg_task quiet_env (example_args None) 0) =
     [Call (CreateFreshdeskTicket (build_ticket_data (example_args None) ''It broke'')),
      TrackerSet ''a@b.com'' (Completed 42 5)] \<and>
   steps (bg_task (quiet_env\<lparr>fetchIntercomConversation := (\<lambda>cid. (5, Inl network_error))\<rparr>)
      (example_args (Some ''77'')) 0) =
     [Call (FetchIntercomConversation ''77''),
      Call (AddConversationTranscriptToTicket (build_ticket_data (example_args (Some ''77'')) ''It broke'') ''77''),
      Call (CreateFreshdeskTicket (build_ticket_data (example_args (Some ''77'')) ''It broke'')),
      Call (PostIntercomNote ''77'' (success_note quiet_env 42)),
      TrackerSet ''a@b.com'' (Completed 42 20)]"
  by code_simp

section \<open>Proofs: a transcript that cannot be fetched\<close>

lemma outbound_calls_steps:
  "outbound_calls trace = concat (map (\<lambda>e. case e of Call c \<Rightarrow> [c] | _ \<Rightarrow> []) (steps trace))"
proof (induction trace)
  case Nil
  show ?case by (simp add: outbound_calls_def steps_def)
next
  case (Cons x trace)
  obtain t e where x: "x = (t, e)" by (cases x)
  have "outbound_calls (x # trace) = (case e of Call c \<Rightarrow> [c] | _ \<Rightarrow> []) @ outbound_calls trace"
    by (simp add: x outbound_calls_def)
  then show ?case using Cons.IH by (cases e) (simp_all add: x steps_Cons)
qed

lemma tracker_writes_steps:
  "tracker_writes trace = concat (map (\<lambda>e. case e of TrackerSet k v \<Rightarrow> [(k, v)] | _ \<Rightarrow> []) (steps trace))"
proof (induction trace)
  case Nil
  show ?case by (simp add: tracker_writes_def steps_def)
next
  case (Cons x trace)
  obtain t e where x: "x = (t, e)" by (cases x)
  show ?case using Cons.IH by (cases e) (simp_all add: x steps_Cons tracker_writes_Cons)
qed

text \<open>
  The \<open>try\<close> block around the first step catches an error of
  \<open>fetchIntercomConversation\<close> or of \<open>formatConversationAsHtml\<close>: the error is logged and
  the task goes on with the description as it was.
\<close>

lemma transcript_fetch_failure_is_caught:
  assumes "truthy (bg_conversationId a)"
    and "isl (snd (fetchIntercomConversation env (or_empty (bg_conversationId a)))) \<or>
         isl (formatConversationAsHtml env (projr (snd (fetchIntercomConversation env (or_empty (bg_conversationId a))))))"
  shows "bg_task env a t =
     [(t, Call (FetchIntercomConversation (or_empty (bg_conversationId a)))),
      (t + fst (fetchIntercomConversation env (or_empty (bg_conversationId a))),
         ConsoleError ''Error fetching or formatting conversation:'')] @
     bg_create env a (t + fst (fetchIntercomConversation env (or_empty (bg_conversationId a))))
       (bg_description a)"
proof -
  let ?f = "snd (fetchIntercomConversation env (or_empty (bg_conversationId a)))"
  have "bg_transcript env a t =
      (t + fst (fetchIntercomConversation env (or_empty (bg_conversationId a))), bg_description a,
       [(t, Call (FetchIntercomConversation (or_empty (bg_conversationId a)))),
        (t + fst (fetchIntercomConversation env (or_empty (bg_conversationId a))),
           ConsoleError ''Error fetching or formatting conversation:'')])"
  proof (cases ?f)
    case (Inl e)
    then show ?thesis using assms(1) by (simp add: bg_transcript_def Let_def)
  next
    case (Inr conversation)
    then have "isl (formatConversationAsHtml env conversation)" using assms(2) by simp
    then obtain e where "formatConversationAsHtml env conversation = Inl e"
      by (cases "formatConversationAsHtml env conversation") simp_all
    then show ?thesis using assms(1) Inr by (simp add: bg_transcript_def Let_def)
  qed
  then show ?thesis by (simp add: bg_task_def)
qed

text \<open>
  The create-ticket route catches an error of \<open>addConversationTranscriptToTicket\<close>: the
  error is logged and the ticket is created from the payload as it was, with the
  banner merged into its description.
\<close>

lemma create_ticket_route_tolerates_transcript_failure:
  assumes "truthy (ct_email b)" "truthy (ct_subject b)" "truthy (ct_description b)"
    "truthy (ct_product_id b)"
    and "truthy (js_or (ct_conversation_id b) (ct_conversation_obj_id b))"
    and "isl (snd (addConversationTranscriptToTicket env tagged
           (or_empty (js_or (ct_conversation_id b) (ct_conversation_obj_id b)))))"
    and "tagged = \<lparr>td_email = or_empty (ct_email b), td_subject = or_empty (ct_subject b),
           td_description = or_empty (ct_description b), td_source = 2,
           td_product_id = js_parseInt (or_empty (ct_product_id b)),
           td_status = (if truthy (ct_status b) then Some (js_parseInt (or_empty (ct_status b))) else None),
           td_priority = (if truthy (ct_priority b) then Some (js_parseInt (or_empty (ct_priority b))) else None),
           td_intercom_conversation_id = Some (or_empty (js_or (ct_conversation_id b) (ct_conversation_obj_id b)))\<rparr>"
  shows "take 3 (create_ticket_route env inbox_url b) =
     [Call (AddConversationTranscriptToTicket tagged
        (or_empty (js_or (ct_conversation_id b) (ct_conversation_obj_id b)))),
      ConsoleError ''Error adding conversation transcript:'',
      Call (CreateFreshdeskTicket (tagged\<lparr>td_description :=
        merge_banner (intercomUrl inbox_url (or_empty (js_or (ct_conversation_id b) (ct_conversation_obj_id b))))
          (or_empty (ct_description b))\<rparr>))]"
proof -
  obtain e where e: "snd (addConversationTranscriptToTicket env tagged
           (or_empty (js_or (ct_conversation_id b) (ct_conversation_obj_id b)))) = Inl e"
    using assms(6) by (cases "snd (addConversationTranscriptToTicket env tagged
           (or_empty (js_or (ct_conversation_id b) (ct_conversation_obj_id b))))") simp_all
  show ?thesis
    using assms(1-5) e unfolding assms(7)
    by (simp add: create_ticket_route_def Let_def)
qed

text \<open>
  Claim C7 fails in the background task.  After the guarded first step the task calls
  \<open>addConversationTranscriptToTicket\<close> outside any inner \<open>try\<close> block (line 1575).  When
  that call fails, as it does when the conversation cannot be fetched, the outer catch
  block ends the task: \<open>createFreshdeskTicket\<close> is never called and the entry is marked
  failed.  The create-ticket route guards the same call.
\<close>

theorem transcript_failure_aborts_ticket_creation:
  assumes "truthy (bg_conversationId a)" and "bg_email a \<noteq> []"
    and "snd (addConversationTranscriptToTicket env
           (build_ticket_data a (fst (snd (bg_transcript env a t))))
           (or_empty (bg_conversationId a))) = Inl e"
  shows "created_tickets (bg_task env a t) = [] \<and>
         (\<exists>t'. tracker_writes (bg_task env a t) = [(bg_email a, Failed (error_text e) t')])"
proof -
  from bg_task_steps [OF assms(2), of env t]
  obtain t' where s: "steps (bg_task env a t) =
      [Call (FetchIntercomConversation (or_empty (bg_conversationId a))),
       Call (AddConversationTranscriptToTicket (build_ticket_data a (fst (snd (bg_transcript env a t))))
          (or_empty (bg_conversationId a))),
       Call (PostIntercomNote (or_empty (bg_conversationId a)) (failure_note e)),
       TrackerSet (bg_email a) (Failed (error_text e) t')]"
    using assms(1,3) by (simp only: if_True sum.case append.simps) blast
  have c: "created_tickets (bg_task env a t) = []"
    by (simp add: created_tickets_def outbound_calls_steps s)
  have w: "tracker_writes (bg_task env a t) = [(bg_email a, Failed (error_text e) t')]"
    by (simp add: tracker_writes_steps s)
  show ?thesis using c w by blast
qed

theorem transcript_failure_aborts_ticket_creation_witness:
  "truthy (bg_conversationId (example_args (Some ''77''))) \<and>
   bg_email (example_args (Some ''77'')) \<noteq> [] \<and>
   snd (addConversationTranscriptToTicket
          (quiet_env\<lparr>fetchIntercomConversation := (\<lambda>cid. (5, Inl network_error)),
                      addConversationTranscriptToTicket := (\<lambda>td cid. (5, Inl network_error))\<rparr>)
          (build_ticket_data (example_args (Some ''77'')) ''It broke'') ''77'') = Inl network_error \<and>
   created_tickets (bg_task
          (quiet_env\<lparr>fetchIntercomConversation := (\<lambda>cid. (5, Inl network_error)),
                      addConversationTranscriptToTicket := (\<lambda>td cid. (5, Inl network_error))\<rparr>)
          (example_args (Some ''77'')) 0) = []"
proof -
  let ?env = "quiet_env\<lparr>fetchIntercomConversation := (\<lambda>cid. (5, Inl network_error)),
                      addConversationTranscriptToTicket := (\<lambda>td cid. (5, Inl network_error))\<rparr>"
  let ?a = "example_args (Some ''77'')"
  have c: "truthy (bg_conversationId ?a)" by (simp add: example_args_def truthy_def)
  have e: "bg_email ?a \<noteq> []" by (simp add: example_args_def)
  have f: "snd (addConversationTranscriptToTicket ?env td cid) = Inl network_error" for td cid
    by simp
  have k: "created_tickets (bg_task ?env ?a 0) = []"
    using transcript_failure_aborts_ticket_creation [OF c e f] by (rule conjunct1)
  show ?thesis by (intro conjI c e f k)
qed

section \<open>Proofs: the shared context\<close>

lemma final_context:
  "\<forall>x \<in> set es. \<forall>c. snd x \<noteq> ContextSet c \<Longrightarrow>
   intercomContext (final_state st es) = intercomContext st"
proof (induction es arbitrary: st)
  case Nil
  show ?case by (simp add: final_state_Nil)
next
  case (Cons x es)
  have p: "\<forall>x \<in> set es. \<forall>c. snd x \<noteq> ContextSet c" using Cons.prems by simp
  have "\<forall>c. snd x \<noteq> ContextSet c" using Cons.prems by simp
  then have "intercomContext (apply_effect st (snd x)) = intercomContext st"
    by (cases "snd x") simp_all
  then show ?case
    using Cons.IH [OF p, of "apply_effect st (snd x)"] by (simp add: final_state_Cons)
qed

lemma set_merge_timed: "set (merge_timed xs ys) = set xs \<union> set ys"
  by (induction xs ys rule: merge_timed.induct) auto

lemma interp_effects:
  "x \<in> set (snd (interp s acts)) \<Longrightarrow>
   snd x = ClearTimeout \<or> (\<exists>r. snd x = ResJson r) \<or> (fst x, Eff (snd x)) \<in> set acts"
proof (induction s acts rule: interp.induct)
  case (1 responseSent)
  then show ?case by simp
next
  case (2 responseSent t e rest)
  then show ?case by (auto split: prod.splits)
next
  case (3 responseSent t r rest)
  then show ?case by (auto split: prod.splits if_splits)
qed

lemma race_effects:
  assumes "x \<in> set (race timer acts)"
  shows "x \<in> set timer \<or> snd x = ClearTimeout \<or> (\<exists>r. snd x = ResJson r) \<or>
         (fst x, Eff (snd x)) \<in> set acts"
proof -
  let ?P = "\<lambda>(t, a :: action). t < deadline"
  let ?early = "takeWhile ?P acts"
  let ?late = "dropWhile ?P acts"
  from assms obtain s where
    "x \<in> set (snd (interp False ?early)) \<or> x \<in> set timer \<or> x \<in> set (snd (interp s ?late))"
    by (auto simp: race_def Let_def set_merge_timed split: if_splits)
  then consider "x \<in> set (snd (interp False ?early))" | "x \<in> set timer"
    | "x \<in> set (snd (interp s ?late))" by blast
  then show ?thesis
  proof cases
    case 1
    from interp_effects [OF 1] show ?thesis by (auto dest: set_takeWhileD)
  next
    case 2
    then show ?thesis by simp
  next
    case 3
    from interp_effects [OF 3] show ?thesis by (auto dest: set_dropWhileD)
  qed
qed

lemma effs_mem: "(t, Eff e) \<in> set (effs es) \<longleftrightarrow> (t, e) \<in> set es"
  by (auto simp: effs_def)

lemma submit_actions_no_context:
  "(t, Eff (ContextSet c)) \<notin> set (submit_actions env b ctx)"
proof
  assume a: "(t, Eff (ContextSet c)) \<in> set (submit_actions env b ctx)"
  have fd: "(t, ContextSet c) \<notin> set (fd_calls (fetch_form_data env))"
    using fd_calls_Call [of "(t, ContextSet c)" env] by auto
  have bg: "(t, ContextSet c) \<notin> set (bg_task env args t0)" for args t0
    using bg_task_effects [of "(t, ContextSet c)" env args t0] by auto
  from a show False
    using fd bg
    by (auto simp: submit_actions_def create_ticket_actions_def submit_ticket_actions_def
        cancel_actions_def Let_def effs_mem split: if_splits option.splits)
qed

lemma timer_effects_no_context: "(t, ContextSet c) \<notin> set (timer_effects env b ctx)"
  by (auto simp: timer_effects_def Let_def split: if_splits)

lemma submit_stores_context:
  "intercomContext (final_state st (submit_trace env b)) = Some (submit_context b)"
proof -
  let ?rest = "race (timer_effects env b (submit_context b)) (submit_actions env b (submit_context b))"
  have "\<forall>x \<in> set ?rest. \<forall>c. snd x \<noteq> ContextSet c"
  proof (intro ballI allI notI)
    fix x c assume x: "x \<in> set ?rest" and c: "snd x = ContextSet c"
    from race_effects [OF x] c
    have "x \<in> set (timer_effects env b (submit_context b)) \<or>
          (fst x, Eff (ContextSet c)) \<in> set (submit_actions env b (submit_context b))"
      by auto
    then show False
      using timer_effects_no_context [of "fst x" c env b "submit_context b"]
        submit_actions_no_context [of "fst x" c env b "submit_context b"] c
      by (cases x) auto
  qed
  from final_context [OF this] show ?thesis
    by (simp add: submit_trace_def final_state_Cons)
qed

lemma initialize_stores_context:
  "intercomContext (final_state st (initialize_effects st b)) = Some (initialize_context b)"
  by (simp add: initialize_effects_def Let_def final_state_def split: option.splits)

lemma recent_tickets_route_context:
  "intercomContext st = Some c \<Longrightarrow>
   recent_tickets_route env st None =
     (if customerEmail c = [] then Json 400 (ErrorBody ''Customer email is required'')
      else (case snd (get_recent_tickets env (customerEmail c)) of
              Inr tickets \<Rightarrow> Json 200 (TicketsBody tickets)
            | Inl e \<Rightarrow> Json 500 (ErrorBody ''Failed to fetch recent tickets from Freshdesk'')))"
  by (simp add: recent_tickets_route_def recent_tickets_email_def js_or_def truthy_def or_empty_def)

text \<open>
  Claim C10.  Without the query parameter \<open>email\<close> the route answers for the customer
  email of \<open>app.locals.intercomContext\<close>, which is the one that the last request to
  \<open>/api/initialize\<close> or to \<open>/api/submit\<close> stored, whoever sent it.  The answer is 400
  exactly when the query parameter and the stored email are both absent or empty.
\<close>

theorem recent_tickets_follow_shared_context:
  "recent_tickets_route env (final_state st (initialize_effects st ib)) None =
     (if customerEmail (initialize_context ib) = []
      then Json 400 (ErrorBody ''Customer email is required'')
      else (case snd (get_recent_tickets env (customerEmail (initialize_context ib))) of
              Inr tickets \<Rightarrow> Json 200 (TicketsBody tickets)
            | Inl e \<Rightarrow> Json 500 (ErrorBody ''Failed to fetch recent tickets from Freshdesk''))) \<and>
   recent_tickets_route env (final_state st (submit_trace env' sb)) None =
     (if customerEmail (submit_context sb) = []
      then Json 400 (ErrorBody ''Customer email is required'')
      else (case snd (get_recent_tickets env (customerEmail (submit_context sb))) of
              Inr tickets \<Rightarrow> Json 200 (TicketsBody tickets)
            | Inl e \<Rightarrow> Json 500 (ErrorBody ''Failed to fetch recent tickets from Freshdesk''))) \<and>
   ((recent_tickets_route env st query_email = Json 400 (ErrorBody ''Customer email is required'')) =
      (\<not> truthy query_email \<and>
       (case intercomContext st of None \<Rightarrow> True | Some c \<Rightarrow> customerEmail c = [])))"
proof (intro conjI)
  show "recent_tickets_route env (final_state st (initialize_effects st ib)) None =
     (if customerEmail (initialize_context ib) = []
      then Json 400 (ErrorBody ''Customer email is required'')
      else (case snd (get_recent_tickets env (customerEmail (initialize_context ib))) of
              Inr tickets \<Rightarrow> Json 200 (TicketsBody tickets)
            | Inl e \<Rightarrow> Json 500 (ErrorBody ''Failed to fetch recent tickets from Freshdesk'')))"
    by (rule recent_tickets_route_context [OF initialize_stores_context])
  show "recent_tickets_route env (final_state st (submit_trace env' sb)) None =
     (if customerEmail (submit_context sb) = []
      then Json 400 (ErrorBody ''Customer email is required'')
      else (case snd (get_recent_tickets env (customerEmail (submit_context sb))) of
              Inr tickets \<Rightarrow> Json 200 (TicketsBody tickets)
            | Inl e \<Rightarrow> Json 500 (ErrorBody ''Failed to fetch recent tickets from Freshdesk'')))"
    by (rule recent_tickets_route_context [OF submit_stores_context])
  show "(recent_tickets_route env st query_email = Json 400 (ErrorBody ''Customer email is required'')) =
      (\<not> truthy query_email \<and>
       (case intercomContext st of None \<Rightarrow> True | Some c \<Rightarrow> customerEmail c = []))"
    by (auto simp: recent_tickets_route_def recent_tickets_email_def js_or_def truthy_def Let_def
        split: option.splits sum.splits)
qed

theorem recent_tickets_follow_shared_context_witness:
  "recent_tickets_route alice_env
     (final_state empty_state (initialize_effects empty_state (initialize_for ''alice@x.com''))) None
     = Json 200 (TicketsBody [\<lparr>tk_id = 7, tk_subject = ''Refund'', tk_created_at = ''2025-01-01T00:00:00Z''\<rparr>]) \<and>
   recent_tickets_route alice_env
     (final_state empty_state (initialize_effects empty_state (initialize_for ''bob@x.com''))) None
     = Json 200 (TicketsBody []) \<and>
   recent_tickets_route alice_env
     (final_state empty_state (submit_trace quiet_env
        ((bare_body ''cancel'')\<lparr>contact_email := Some ''alice@x.com''\<rparr>))) None
     = Json 200 (TicketsBody [\<lparr>tk_id = 7, tk_subject = ''Refund'', tk_created_at = ''2025-01-01T00:00:00Z''\<rparr>]) \<and>
   recent_tickets_route alice_env empty_state None
     = Json 400 (ErrorBody ''Customer email is required'')"
proof -
  have a: "customerEmail (initialize_context (initialize_for ''alice@x.com'')) = ''alice@x.com''"
    and b: "customerEmail (initialize_context (initialize_for ''bob@x.com'')) = ''bob@x.com''"
    by (simp_all add: initialize_context_def initialize_for_def js_or_def truthy_def or_empty_def)
  have c: "customerEmail (submit_context ((bare_body ''cancel'')\<lparr>contact_email := Some ''alice@x.com''\<rparr>))
      = ''alice@x.com''"
    by (simp add: submit_context_def bare_body_def js_or_def truthy_def or_empty_def)
  have ga: "snd (get_recent_tickets alice_env ''alice@x.com'')
      = Inr [\<lparr>tk_id = 7, tk_subject = ''Refund'', tk_created_at = ''2025-01-01T00:00:00Z''\<rparr>]"
    and gb: "snd (get_recent_tickets alice_env ''bob@x.com'') = Inr []"
    by (simp_all add: alice_env_def quiet_env_def)
  have n: "\<not> truthy None" "intercomContext empty_state = None"
    by (simp_all add: truthy_def empty_state_def)
  note t1 = recent_tickets_follow_shared_context
    [of alice_env empty_state "initialize_for ''alice@x.com''" quiet_env
        "(bare_body ''cancel'')\<lparr>contact_email := Some ''alice@x.com''\<rparr>" None]
  note t2 = recent_tickets_follow_shared_context
    [of alice_env empty_state "initialize_for ''bob@x.com''" quiet_env
        "(bare_body ''cancel'')\<lparr>contact_email := Some ''alice@x.com''\<rparr>" None]
  have r1: "recent_tickets_route alice_env
     (final_state empty_state (initialize_effects empty_state (initialize_for ''alice@x.com''))) None
     = Json 200 (TicketsBody [\<lparr>tk_id = 7, tk_subject = ''Refund'', tk_created_at = ''2025-01-01T00:00:00Z''\<rparr>])"
    using t1 [THEN conjunct1] unfolding a ga by simp
  have r2: "recent_tickets_route alice_env
     (final_state empty_state (initialize_effects empty_state (initialize_for ''bob@x.com''))) None
     = Json 200 (TicketsBody [])"
    using t2 [THEN conjunct1] unfolding b gb by simp
  have r3: "recent_tickets_route alice_env
     (final_state empty_state (submit_trace quiet_env
        ((bare_body ''cancel'')\<lparr>contact_email := Some ''alice@x.com''\<rparr>))) None
     = Json 200 (TicketsBody [\<lparr>tk_id = 7, tk_subject = ''Refund'', tk_created_at = ''2025-01-01T00:00:00Z''\<rparr>])"
    using t1 [THEN conjunct2, THEN conjunct1] unfolding c ga by simp
  have r4: "recent_tickets_route alice_env empty_state None
     = Json 400 (ErrorBody ''Customer email is required'')"
    using t1 [THEN conjunct2, THEN conjunct2] n by simp
  show ?thesis by (intro conjI r1 r2 r3 r4)
qed

section \<open>Proofs: the branches that answer through \<open>sendResponse\<close>\<close>

lemma responses_Cons:
  "responses ((t, e) # es) = (case e of ResJson r \<Rightarrow> [r] | _ \<Rightarrow> []) @ responses es"
  by (simp add: responses_def)

lemma length_responses_merge_timed:
  "length (responses (merge_timed xs ys)) = length (responses xs) + length (responses ys)"
  by (induction xs ys rule: merge_timed.induct) (auto simp: responses_def)

text \<open>
  Actions that call \<open>res.json\<close> through \<open>sendResponse\<close> only: the first call of
  \<open>sendResponse\<close> with the flag down answers and clears the timer, and nothing else does.
\<close>

lemma interp_guarded:
  assumes "\<forall>x \<in> set acts. \<forall>e. snd x = Eff e \<longrightarrow> (\<forall>r. e \<noteq> ResJson r) \<and> e \<noteq> ClearTimeout"
  shows "fst (interp s acts) = (s \<or> (\<exists>t r. (t, SendResponse r) \<in> set acts)) \<and>
         length (responses (snd (interp s acts))) =
           (if \<not> s \<and> (\<exists>t r. (t, SendResponse r) \<in> set acts) then 1 else 0) \<and>
         (ClearTimeout \<in> set (map snd (snd (interp s acts)))) =
           (\<not> s \<and> (\<exists>t r. (t, SendResponse r) \<in> set acts))"
  using assms
proof (induction s acts rule: interp.induct)
  case (1 responseSent)
  show ?case by (simp add: responses_def)
next
  case (2 responseSent t e rest)
  have p: "\<forall>x \<in> set rest. \<forall>e. snd x = Eff e \<longrightarrow> (\<forall>r. e \<noteq> ResJson r) \<and> e \<noteq> ClearTimeout"
    using "2.prems" by simp
  have e: "(\<forall>r. e \<noteq> ResJson r) \<and> e \<noteq> ClearTimeout" using "2.prems" by simp
  obtain s' es where i: "interp responseSent rest = (s', es)" by (cases "interp responseSent rest")
  have r: "responses ((t, e) # es) = responses es"
    using e by (cases e) (simp_all add: responses_Cons)
  from "2.IH" [OF p] i e show ?case by (auto simp: r)
next
  case (3 responseSent t r rest)
  have p: "\<forall>x \<in> set rest. \<forall>e. snd x = Eff e \<longrightarrow> (\<forall>r. e \<noteq> ResJson r) \<and> e \<noteq> ClearTimeout"
    using "3.prems" by simp
  show ?case
  proof (cases responseSent)
    case True
    with "3.IH"(2) [OF _ p] show ?thesis by simp
  next
    case False
    obtain s' es where i: "interp True rest = (s', es)" by (cases "interp True rest")
    from "3.IH"(1) [OF _ p] False i show ?thesis
      by (auto simp: responses_Cons)
  qed
qed

text \<open>
  With such a main path, the race has one call of \<open>res.json\<close>: the one of
  \<open>sendResponse\<close> when the main path gets there before the deadline, the one of the timer
  otherwise.
\<close>

lemma race_guarded_once:
  assumes plain: "\<forall>x \<in> set acts. \<forall>e. snd x = Eff e \<longrightarrow> (\<forall>r. e \<noteq> ResJson r) \<and> e \<noteq> ClearTimeout"
    and timer: "length (responses timer) = 1"
  shows "length (responses (race timer acts)) = 1"
proof -
  let ?P = "\<lambda>(t, a :: action). t < deadline"
  let ?early = "takeWhile ?P acts"
  let ?late = "dropWhile ?P acts"
  have pe: "\<forall>x \<in> set ?early. \<forall>e. snd x = Eff e \<longrightarrow> (\<forall>r. e \<noteq> ResJson r) \<and> e \<noteq> ClearTimeout"
    using plain by (meson set_takeWhileD)
  have pl: "\<forall>x \<in> set ?late. \<forall>e. snd x = Eff e \<longrightarrow> (\<forall>r. e \<noteq> ResJson r) \<and> e \<noteq> ClearTimeout"
    using plain by (meson set_dropWhileD)
  note e = interp_guarded [OF pe, of False, simplified]
  show ?thesis
  proof (cases "\<exists>t r. (t, SendResponse r) \<in> set ?early")
    case True
    have l: "length (responses (snd (interp True ?late))) = 0"
      using interp_guarded [OF pl, of True] by simp
    show ?thesis
      using e True l by (simp add: race_def Let_def responses_append)
  next
    case False
    have l: "length (responses (snd (interp True ?late))) = 0"
      using interp_guarded [OF pl, of True] by simp
    show ?thesis
      using e False l timer
      by (simp add: race_def Let_def responses_append length_responses_merge_timed)
  qed
qed

lemma effs_plain:
  assumes "\<forall>x \<in> set es. (\<exists>c. snd x = Call c) \<or> (\<exists>s. snd x = ConsoleError s) \<or> (\<exists>k v. snd x = TrackerSet k v)"
  shows "\<forall>x \<in> set (effs es). \<forall>e. snd x = Eff e \<longrightarrow> (\<forall>r. e \<noteq> ResJson r) \<and> e \<noteq> ClearTimeout"
  using assms by (fastforce simp: effs_def)

text \<open>
  The branches of \<open>submit_ticket_button\<close> and of \<open>cancel\<close> answer through \<open>sendResponse\<close>
  only: for them every request gets one call of \<open>res.json\<close>, before or at the deadline
  fallback, whatever the calls answer and however long they take.
\<close>

lemma guarded_branches_send_once:
  assumes "component_id b = Some ''submit_ticket_button'' \<or> component_id b = Some ''cancel''"
  shows "length (responses (submit_trace env b)) = 1"
proof -
  let ?ctx = "submit_context b"
  have fd: "\<forall>x \<in> set (effs (fd_calls (fetch_form_data env))).
      \<forall>e. snd x = Eff e \<longrightarrow> (\<forall>r. e \<noteq> ResJson r) \<and> e \<noteq> ClearTimeout"
    by (rule effs_plain) (use fd_calls_Call in blast)
  have bg: "\<forall>x \<in> set (effs (bg_task env args t0)).
      \<forall>e. snd x = Eff e \<longrightarrow> (\<forall>r. e \<noteq> ResJson r) \<and> e \<noteq> ClearTimeout" for args t0
    by (rule effs_plain) (use bg_task_effects in blast)
  have plain: "\<forall>x \<in> set (submit_actions env b ?ctx).
      \<forall>e. snd x = Eff e \<longrightarrow> (\<forall>r. e \<noteq> ResJson r) \<and> e \<noteq> ClearTimeout"
  proof (cases "component_id b = Some ''submit_ticket_button''")
    case True
    then have a: "submit_actions env b ?ctx = submit_ticket_actions env b ?ctx"
      by (simp add: submit_actions_def)
    show ?thesis
      unfolding a submit_ticket_actions_def Let_def using fd bg
      by (auto split: if_splits)
  next
    case False
    then have a: "submit_actions env b ?ctx = cancel_actions env b ?ctx"
      using assms by (simp add: submit_actions_def)
    show ?thesis
      unfolding a cancel_actions_def Let_def by (auto split: if_splits)
  qed
  have "length (responses (race (timer_effects env b ?ctx) (submit_actions env b ?ctx))) = 1"
    using race_guarded_once [OF plain responses_timer_effects] .
  then show ?thesis by (simp add: submit_trace_def responses_Cons)
qed

end
